theory Spec2Isabelle
  imports Main "HOL-Library.AList" "HOL-Library.Sublist" "HOL-Library.Multiset"
begin

section \<open>Values, errors and the GitHub client\<close>

text \<open>
  The repository holds two GitHub Actions. The team synchroniser (\<open>src/unnamed/part_002\<close>)
  reconciles the members of each team with a team-data file; the labeler
  (\<open>src/unnamed/part_001\<close>) labels a pull request from glob rules and from the teams of
  its author. Both are written against the Octokit client and \<open>@actions/core\<close>.

  A JavaScript exception is a value of type \<open>error\<close>; a computation that may throw
  returns \<open>error + 'a\<close> with \<open>Inl\<close> the exception. \<open>HttpError\<close> is a failed request
  with its status code, \<open>TypeError\<close> the runtime's own error, \<open>Error\<close> a plain
  \<open>throw Error(msg)\<close>.
\<close>

datatype error = HttpError nat string | TypeError string | Error string

fun message :: "error \<Rightarrow> string" where
  "message (HttpError code msg) = msg"
| "message (TypeError msg) = msg"
| "message (Error msg) = msg"

text \<open>
  What \<open>run\<close> leaves behind: \<open>core.setFailed(error.message)\<close> in its \<open>catch\<close>, or
  nothing.
\<close>

datatype status = Success | Failed string

text \<open>A decoded YAML or JSON value (the source types it \<open>any\<close>).\<close>

datatype yaml =
    YNull
  | YBool bool
  | YNumber int
  | YString string
  | YArray "yaml list"
  | YObject "(string \<times> yaml) list"

text \<open>
  The team-data file: an object from team name to \<open>{members: [{github: login}], short}\<close>,
  in the order \<open>Object.keys\<close>/\<open>Object.entries\<close> enumerate it. \<open>members\<close> is \<open>None\<close>
  when the key is missing; the logins are the \<open>github\<close> fields of the members.
\<close>

record team_entry =
  members :: "string list option"
  short :: "string option"

type_synonym teams_data = "(string \<times> team_entry) list"

text \<open>The labeler's configuration file, decoded.\<close>

record location =
  loc_owner :: string
  loc_repo :: string
  loc_path :: string

record config =
  file_pattern_labels :: "(string \<times> yaml) list option"
  team_labels :: "(string \<times> string list) list option"
  teams_configuration_location :: "location option"

text \<open>\<open>github.context\<close>: the repository and the event payload.\<close>

record pull_request =
  number :: nat
  user_login :: string

record github_context =
  repo_owner :: string
  repo_name :: string
  payload_pull_request :: "pull_request option"

text \<open>
  Every request the two actions send. The first five only read; the others change the
  pull request or a team.
\<close>

datatype pr_state = Open | Closed

datatype call =
    UsersGetAuthenticated
  | ReposGetContents string
  | ReposGetContentsExternal location
  | PullsListFiles nat
  | TeamsGetByName string string
  | TeamsListMembersInOrg string string
  | PullsUpdate nat pr_state
  | IssuesAddLabels nat "string list"
  | TeamsCreate string string
  | TeamsRemoveMembershipInOrg string string string
  | TeamsAddOrUpdateMembershipInOrg string string string

text \<open>
  The \<open>data\<close> of the answer to \<open>teams.getByName\<close>, an object; the code only tests
  whether it has one.
\<close>

datatype team = Team nat string

text \<open>
  The collaborators, which are not code of this repository. The pure libraries are
  functions (\<open>slugify\<close>, the \<open>Minimatch\<close> matcher on a string pattern, the two parsers,
  \<open>core.getInput\<close> with its \<open>required\<close> flag). A request to GitHub is answered by an
  oracle that sees every request sent so far, the current one last: it may succeed or fail
  in any way and may depend on what was written before, so the model assumes nothing about
  the remote state. The requests whose answer the code does not read share the oracle
  \<open>mutate\<close>.
\<close>

record env =
  core_getInput :: "string \<Rightarrow> bool \<Rightarrow> error + string"
  slugify :: "string \<Rightarrow> string"
  minimatch :: "string \<Rightarrow> string \<Rightarrow> bool"
  yaml_safeLoad :: "string \<Rightarrow> error + config"
  json_parse :: "string \<Rightarrow> error + teams_data"
  users_getAuthenticated :: "call list \<Rightarrow> error + string"
  repos_getContents :: "call list \<Rightarrow> error + string"
  pulls_listFiles :: "call list \<Rightarrow> error + string list"
  teams_getByName :: "call list \<Rightarrow> error + team"
  teams_listMembersInOrg :: "call list \<Rightarrow> error + string list"
  mutate :: "call list \<Rightarrow> error + unit"

text \<open>
  An \<open>async\<close> function is a function of the requests sent so far that returns its value
  or the exception it threw, with the requests sent by then.
\<close>

type_synonym 'a io = "call list \<Rightarrow> (error + 'a) \<times> call list"

definition return_io :: "'a \<Rightarrow> 'a io" where
  "return_io x tr = (Inr x, tr)"

definition lift_io :: "error + 'a \<Rightarrow> 'a io" where
  "lift_io r tr = (r, tr)"

definition bind_io :: "'a io \<Rightarrow> ('a \<Rightarrow> 'b io) \<Rightarrow> 'b io" where
  "bind_io m k tr = (case m tr of (Inl e, tr') \<Rightarrow> (Inl e, tr') | (Inr x, tr') \<Rightarrow> k x tr')"

definition request :: "(call list \<Rightarrow> error + 'a) \<Rightarrow> call \<Rightarrow> 'a io" where
  "request respond c tr = (respond (tr @ [c]), tr @ [c])"

text \<open>The \<open>try\<close>/\<open>catch\<close> of both \<open>run\<close> functions.\<close>

definition try_catch :: "unit io \<Rightarrow> status \<times> call list" where
  "try_catch body =
     (case body [] of
        (Inl error, tr) \<Rightarrow> (Failed (message error), tr)
      | (Inr u, tr) \<Rightarrow> (Success, tr))"

text \<open>
  \<open>fetchContent\<close> is the same in both actions: the file at the path, decoded
  (\<open>Buffer.from(content, encoding).toString()\<close> is part of the answer).
\<close>

definition fetchContent :: "env \<Rightarrow> string \<Rightarrow> string io" where
  "fetchContent env repoPath = request (repos_getContents env) (ReposGetContents repoPath)"

section \<open>The team synchroniser\<close>

text \<open>
  \<open>getExistingTeamAndMembers\<close>: both requests are inside one \<open>try\<close> whose \<open>catch\<close>
  sets \<open>existingTeam = null\<close>; \<open>existingMembers\<close> keeps its initial \<open>[]\<close> unless
  the last statement of the \<open>try\<close> was reached.
\<close>

definition getExistingTeamAndMembers ::
  "env \<Rightarrow> string \<Rightarrow> string \<Rightarrow> (team option \<times> string list) io" where
  "getExistingTeamAndMembers env org teamSlug tr =
     (case request (teams_getByName env) (TeamsGetByName org teamSlug) tr of
        (Inl error, tr1) \<Rightarrow> (Inr (None, []), tr1)
      | (Inr existingTeam, tr1) \<Rightarrow>
          (case request (teams_listMembersInOrg env) (TeamsListMembersInOrg org teamSlug) tr1 of
             (Inl error, tr2) \<Rightarrow> (Inr (None, []), tr2)
           | (Inr existingMembers, tr2) \<Rightarrow> (Inr (Some existingTeam, existingMembers), tr2)))"

definition createTeamWithNoMembers ::
  "env \<Rightarrow> string \<Rightarrow> string \<Rightarrow> string \<Rightarrow> string \<Rightarrow> unit io" where
  "createTeamWithNoMembers env org teamName teamSlug authenticatedUserLogin =
     bind_io (request (mutate env) (TeamsCreate org teamName)) (\<lambda>u.
       request (mutate env) (TeamsRemoveMembershipInOrg org teamSlug authenticatedUserLogin))"

text \<open>
  The two loops of \<open>synchronizeTeamData\<close> over the usernames (lines 55-66 and 80-89).
  An exception of a request leaves the loop.
\<close>

fun removeMembers :: "env \<Rightarrow> string \<Rightarrow> string \<Rightarrow> string list \<Rightarrow> string list \<Rightarrow> unit io" where
  "removeMembers env org teamSlug desiredMembers [] tr = (Inr (), tr)"
| "removeMembers env org teamSlug desiredMembers (username # rest) tr =
     (if username \<notin> set desiredMembers
      then (case request (mutate env) (TeamsRemoveMembershipInOrg org teamSlug username) tr of
              (Inl error, tr') \<Rightarrow> (Inl error, tr')
            | (Inr u, tr') \<Rightarrow> removeMembers env org teamSlug desiredMembers rest tr')
      else removeMembers env org teamSlug desiredMembers rest tr)"

fun addMembers :: "env \<Rightarrow> string \<Rightarrow> string \<Rightarrow> string list \<Rightarrow> string list \<Rightarrow> unit io" where
  "addMembers env org teamSlug existingMembers [] tr = (Inr (), tr)"
| "addMembers env org teamSlug existingMembers (username # rest) tr =
     (if username \<notin> set existingMembers
      then (case request (mutate env) (TeamsAddOrUpdateMembershipInOrg org teamSlug username) tr of
              (Inl error, tr') \<Rightarrow> (Inl error, tr')
            | (Inr u, tr') \<Rightarrow> addMembers env org teamSlug existingMembers rest tr')
      else addMembers env org teamSlug existingMembers rest tr)"

text \<open>
  One round of the loop of \<open>synchronizeTeamData\<close> over the team names (lines 37-89).
  \<open>teamData[teamName].members.map\<close> throws when \<open>members\<close> is missing.
\<close>

definition synchronizeTeam :: "env \<Rightarrow> string \<Rightarrow> string \<Rightarrow> string \<times> team_entry \<Rightarrow> unit io" where
  "synchronizeTeam env org authenticatedUserLogin entry =
     (let teamName = fst entry; teamSlug = slugify env teamName in
      case members (snd entry) of
        None \<Rightarrow> lift_io (Inl (TypeError ''Cannot read property 'map' of undefined''))
      | Some desiredMembers \<Rightarrow>
          bind_io (getExistingTeamAndMembers env org teamSlug) (\<lambda>(existingTeam, existingMembers).
          bind_io (case existingTeam of
                     Some t \<Rightarrow> removeMembers env org teamSlug desiredMembers existingMembers
                   | None \<Rightarrow> createTeamWithNoMembers env org teamName teamSlug authenticatedUserLogin) (\<lambda>u.
          addMembers env org teamSlug existingMembers desiredMembers)))"

fun synchronizeTeamData :: "env \<Rightarrow> string \<Rightarrow> string \<Rightarrow> teams_data \<Rightarrow> unit io" where
  "synchronizeTeamData env org authenticatedUserLogin [] tr = (Inr (), tr)"
| "synchronizeTeamData env org authenticatedUserLogin (entry # rest) tr =
     (case synchronizeTeam env org authenticatedUserLogin entry tr of
        (Inl error, tr') \<Rightarrow> (Inl error, tr')
      | (Inr u, tr') \<Rightarrow> synchronizeTeamData env org authenticatedUserLogin rest tr')"

definition getTeamData :: "env \<Rightarrow> string \<Rightarrow> teams_data io" where
  "getTeamData env teamDataPath =
     bind_io (fetchContent env teamDataPath) (\<lambda>teamDataContent.
       lift_io (json_parse env teamDataContent))"

definition run_sync :: "env \<Rightarrow> github_context \<Rightarrow> status \<times> call list" where
  "run_sync env ctx =
     try_catch
       (bind_io (lift_io (core_getInput env ''repo-token'' True)) (\<lambda>token.
        bind_io (lift_io (core_getInput env ''team-data-path'' False)) (\<lambda>teamDataPath.
        bind_io (request (users_getAuthenticated env) UsersGetAuthenticated) (\<lambda>authenticatedUserLogin.
        bind_io (getTeamData env teamDataPath) (\<lambda>teamData.
          synchronizeTeamData env (repo_owner ctx) authenticatedUserLogin teamData)))))"

section \<open>The labeler\<close>

text \<open>
  A \<open>Map\<close> is the list of its entries in insertion order. \<open>Map.set\<close> replaces the
  value of a key that is there, in place, and appends a new key: \<open>AList.update\<close>.
  \<open>new Map(entries)\<close> sets the entries one after the other.
\<close>

definition new_Map :: "('k \<times> 'v) list \<Rightarrow> ('k \<times> 'v) list" where
  "new_Map entries = foldl (\<lambda>m (k, v). AList.update k v m) [] entries"

fun getTeamLabel_loop :: "(string \<times> string list) list \<Rightarrow> string \<Rightarrow> string list \<Rightarrow> string list" where
  "getTeamLabel_loop [] author labels = labels"
| "getTeamLabel_loop ((label, authors) # rest) author labels =
     getTeamLabel_loop rest author
       (if author \<in> set authors then labels @ [label] else labels)"

definition getTeamLabel :: "(string \<times> string list) list \<Rightarrow> string \<Rightarrow> string list" where
  "getTeamLabel labelsConfiguration author = getTeamLabel_loop labelsConfiguration author []"

definition getPrAuthor :: "github_context \<Rightarrow> string" where
  "getPrAuthor ctx =
     (case payload_pull_request ctx of
        None \<Rightarrow> ''unknown''
      | Some pullRequest \<Rightarrow> user_login pullRequest)"

definition getPrNumber :: "github_context \<Rightarrow> nat option" where
  "getPrNumber ctx =
     (case payload_pull_request ctx of
        None \<Rightarrow> None
      | Some pullRequest \<Rightarrow> Some (number pullRequest))"

definition getChangedFiles :: "env \<Rightarrow> nat \<Rightarrow> string list io" where
  "getChangedFiles env prNumber = request (pulls_listFiles env) (PullsListFiles prNumber)"

definition getConfigurationContents :: "env \<Rightarrow> string \<Rightarrow> config io" where
  "getConfigurationContents env configurationPath =
     bind_io (fetchContent env configurationPath) (\<lambda>configurationContent.
       lift_io (yaml_safeLoad env configurationContent))"

text \<open>
  \<open>getLabelGlobMapFromObject\<close>: \<open>for (const label in configObject)\<close> runs over the
  keys of the object, and over nothing when \<open>configObject\<close> is \<open>undefined\<close>. The
  array branch stores the array as it is.
\<close>

fun getLabelGlobMapFromObject_loop ::
  "(string \<times> yaml) list \<Rightarrow> (string \<times> yaml list) list \<Rightarrow> error + (string \<times> yaml list) list" where
  "getLabelGlobMapFromObject_loop [] labelGlobs = Inr labelGlobs"
| "getLabelGlobMapFromObject_loop ((label, v) # rest) labelGlobs =
     (case v of
        YString s \<Rightarrow> getLabelGlobMapFromObject_loop rest (AList.update label [YString s] labelGlobs)
      | YArray globs \<Rightarrow> getLabelGlobMapFromObject_loop rest (AList.update label globs labelGlobs)
      | _ \<Rightarrow> Inl (Error (''found unexpected type for label '' @ label @
                         '' (should be string or array of globs)'')))"

definition getLabelGlobMapFromObject ::
  "(string \<times> yaml) list option \<Rightarrow> error + (string \<times> yaml list) list" where
  "getLabelGlobMapFromObject configObject =
     (case configObject of
        None \<Rightarrow> Inr []
      | Some entries \<Rightarrow> getLabelGlobMapFromObject_loop entries [])"

definition getLabelGlobs :: "config \<Rightarrow> error + (string \<times> yaml list) list" where
  "getLabelGlobs configObject = getLabelGlobMapFromObject (file_pattern_labels configObject)"

text \<open>
  \<open>new Minimatch(glob)\<close>: the library's constructor throws a \<open>TypeError\<close> for a pattern
  that is not a string; for a string it is the matcher of the environment.
\<close>

definition new_Minimatch :: "(string \<Rightarrow> string \<Rightarrow> bool) \<Rightarrow> yaml \<Rightarrow> error + (string \<Rightarrow> bool)" where
  "new_Minimatch mm glob =
     (case glob of
        YString pattern \<Rightarrow> Inr (mm pattern)
      | _ \<Rightarrow> Inl (TypeError ''glob pattern string required''))"

text \<open>
  \<open>checkGlobs\<close>: the matcher is built before the files are looked at; the inner loop
  returns \<open>true\<close> at the first file that matches.
\<close>

fun checkGlobs :: "(string \<Rightarrow> string \<Rightarrow> bool) \<Rightarrow> string list \<Rightarrow> yaml list \<Rightarrow> error + bool" where
  "checkGlobs mm changedFiles [] = Inr False"
| "checkGlobs mm changedFiles (glob # globs) =
     (case new_Minimatch mm glob of
        Inl error \<Rightarrow> Inl error
      | Inr matcher \<Rightarrow>
          if list_ex matcher changedFiles then Inr True
          else checkGlobs mm changedFiles globs)"

text \<open>The loop of \<open>run\<close> over \<open>labelGlobs.entries()\<close> (lines 81-87).\<close>

fun globLabels ::
  "(string \<Rightarrow> string \<Rightarrow> bool) \<Rightarrow> string list \<Rightarrow> (string \<times> yaml list) list \<Rightarrow> string list
     \<Rightarrow> error + string list" where
  "globLabels mm changedFiles [] labels = Inr labels"
| "globLabels mm changedFiles ((label, globs) # rest) labels =
     (case checkGlobs mm changedFiles globs of
        Inl error \<Rightarrow> Inl error
      | Inr matched \<Rightarrow>
          globLabels mm changedFiles rest (if matched then labels @ [label] else labels))"

text \<open>\<open>addLabels\<close>: \<open>l.replace(/#/g, '')\<close> drops every \<open>#\<close> of a label.\<close>

definition addLabels :: "env \<Rightarrow> nat \<Rightarrow> string list \<Rightarrow> unit io" where
  "addLabels env prNumber labels =
     request (mutate env)
       (IssuesAddLabels prNumber (map (filter (\<lambda>c. c \<noteq> CHR ''#'')) labels))"

text \<open>
  The team labels of \<open>run\<close> (lines 46-79): from the teams file of another repository
  when the configuration names one, from \<open>team_labels\<close> otherwise.
  \<open>short || teamName\<close> takes the team name when \<open>short\<close> is missing or empty;
  \<open>Object.entries(undefined)\<close> throws.
\<close>

definition teamLabelEntry :: "string \<times> team_entry \<Rightarrow> error + string \<times> string list" where
  "teamLabelEntry entry =
     (let teamName = fst entry; teamData = snd entry in
      case members teamData of
        Some teamGitHubUsernames \<Rightarrow>
          Inr (case short teamData of
                 None \<Rightarrow> teamName
               | Some s \<Rightarrow> if s = [] then teamName else s,
               teamGitHubUsernames)
      | None \<Rightarrow>
          Inl (Error ''unexpected team data format (expected an object mapping team names to team metadata''))"

fun map_throw :: "('a \<Rightarrow> error + 'b) \<Rightarrow> 'a list \<Rightarrow> error + 'b list" where
  "map_throw f [] = Inr []"
| "map_throw f (x # xs) =
     (case f x of
        Inl error \<Rightarrow> Inl error
      | Inr y \<Rightarrow> (case map_throw f xs of Inl error \<Rightarrow> Inl error | Inr ys \<Rightarrow> Inr (y # ys)))"

definition getTeamLabelsToMembers :: "env \<Rightarrow> config \<Rightarrow> (string \<times> string list) list io" where
  "getTeamLabelsToMembers env configObject =
     (case teams_configuration_location configObject of
        Some teamsLocation \<Rightarrow>
          bind_io (lift_io (core_getInput env ''external-repo-token'' False)) (\<lambda>externalRepoToken.
          bind_io (request (repos_getContents env) (ReposGetContentsExternal teamsLocation)) (\<lambda>content.
          bind_io (lift_io (json_parse env content)) (\<lambda>teamsData.
          bind_io (lift_io (map_throw teamLabelEntry teamsData)) (\<lambda>entries.
            return_io (new_Map entries)))))
      | None \<Rightarrow>
          (case team_labels configObject of
             None \<Rightarrow> lift_io (Inl (TypeError ''Cannot convert undefined or null to object''))
           | Some entries \<Rightarrow> return_io (new_Map entries)))"

text \<open>
  The rest of \<open>run\<close> (lines 81-113): the glob labels, then the team labels pushed
  behind them, then the three requests, each behind its \<open>if\<close>.
\<close>

definition labelPullRequest ::
  "env \<Rightarrow> github_context \<Rightarrow> nat \<Rightarrow> string list \<Rightarrow> (string \<times> yaml list) list
     \<Rightarrow> (string \<times> string list) list \<Rightarrow> unit io" where
  "labelPullRequest env ctx prNumber changedFiles labelGlobs teamLabelsToMembers =
     bind_io (lift_io (globLabels (minimatch env) changedFiles labelGlobs [])) (\<lambda>globbed.
       let additionalLabels = getTeamLabel teamLabelsToMembers (getPrAuthor ctx);
           labels = globbed @ additionalLabels;
           shouldCloseAndReopenIssue = (length additionalLabels > 0)
       in
       bind_io (if shouldCloseAndReopenIssue
                then request (mutate env) (PullsUpdate prNumber Closed)
                else return_io ()) (\<lambda>u.
       bind_io (if length labels > 0 then addLabels env prNumber labels else return_io ()) (\<lambda>u.
         if shouldCloseAndReopenIssue
         then request (mutate env) (PullsUpdate prNumber Open)
         else return_io ())))"

text \<open>
  \<open>run\<close> of the labeler. \<open>!prNumber\<close> holds without a pull request and for the
  number 0; then \<open>run\<close> returns after a log line.
\<close>

definition run_labeler :: "env \<Rightarrow> github_context \<Rightarrow> status \<times> call list" where
  "run_labeler env ctx =
     try_catch
       (bind_io (lift_io (core_getInput env ''repo-token'' True)) (\<lambda>token.
        bind_io (lift_io (core_getInput env ''configuration-path'' True)) (\<lambda>configPath.
          case getPrNumber ctx of
            None \<Rightarrow> return_io ()
          | Some prNumber \<Rightarrow>
              if prNumber = 0 then return_io ()
              else
                bind_io (getConfigurationContents env configPath) (\<lambda>configObject.
                bind_io (getChangedFiles env prNumber) (\<lambda>changedFiles.
                bind_io (lift_io (getLabelGlobs configObject)) (\<lambda>labelGlobs.
                bind_io (getTeamLabelsToMembers env configObject) (\<lambda>teamLabelsToMembers.
                  labelPullRequest env ctx prNumber changedFiles labelGlobs teamLabelsToMembers)))))))"

section \<open>What a run sent\<close>

text \<open>The usernames of the membership requests among the requests sent, in order.\<close>

fun removedUsername :: "call \<Rightarrow> string option" where
  "removedUsername (TeamsRemoveMembershipInOrg org teamSlug username) = Some username"
| "removedUsername c = None"

fun addedUsername :: "call \<Rightarrow> string option" where
  "addedUsername (TeamsAddOrUpdateMembershipInOrg org teamSlug username) = Some username"
| "addedUsername c = None"

definition removedUsernames :: "call list \<Rightarrow> string list" where
  "removedUsernames cs = List.map_filter removedUsername cs"

definition addedUsernames :: "call list \<Rightarrow> string list" where
  "addedUsernames cs = List.map_filter addedUsername cs"

section \<open>The collaborators of the scenarios\<close>

text \<open>
  Modelled from the spec: the effect of the team requests on GitHub, which is outside the
  repository. Section 4.3 of the spec says that creating a team makes the creating
  identity a member; removing and adding a member do what their names say. Teams are
  found by slug, and the created team gets the slug the action computes for its name.
  Only the requests that succeeded are replayed.
\<close>

fun github_apply ::
  "(string \<Rightarrow> string) \<Rightarrow> string \<Rightarrow> call \<Rightarrow> (string \<Rightarrow> string set option)
     \<Rightarrow> (string \<Rightarrow> string set option)" where
  "github_apply slug creator (TeamsCreate org teamName) teams =
     (if teams (slug teamName) = None then teams(slug teamName \<mapsto> {creator}) else teams)"
| "github_apply slug creator (TeamsRemoveMembershipInOrg org teamSlug username) teams =
     (case teams teamSlug of
        None \<Rightarrow> teams
      | Some ms \<Rightarrow> teams(teamSlug \<mapsto> ms - {username}))"
| "github_apply slug creator (TeamsAddOrUpdateMembershipInOrg org teamSlug username) teams =
     (case teams teamSlug of
        None \<Rightarrow> teams
      | Some ms \<Rightarrow> teams(teamSlug \<mapsto> insert username ms))"
| "github_apply slug creator c teams = teams"

definition github_replay ::
  "(string \<Rightarrow> string) \<Rightarrow> string \<Rightarrow> call list \<Rightarrow> (string \<Rightarrow> string set option)
     \<Rightarrow> (string \<Rightarrow> string set option)" where
  "github_replay slug creator cs teams = fold (github_apply slug creator) cs teams"

text \<open>
  Modelled from the spec: a glob matcher for the scenarios, in place of the \<open>minimatch\<close>
  library, which is outside the repository. Section 4.1 of the spec asks for shell-glob
  semantics on the full relative path: here \<open>**\<close> matches any characters, \<open>*\<close> any
  characters but \<open>/\<close>, \<open>?\<close> one character but \<open>/\<close>, and any other character
  itself; character classes, the special treatment of a leading dot and of \<open>**/\<close> are
  left out. The theorems below hold for every matcher; only the scenarios use this one, on
  patterns without these.
\<close>

fun glob_match :: "string \<Rightarrow> string \<Rightarrow> bool" where
  "glob_match [] path = (path = [])"
| "glob_match (p # ps) path =
     (if p = CHR ''*'' then
        (case ps of
           q # qs \<Rightarrow>
             if q = CHR ''*''
             then glob_match qs path \<or>
                  (case path of [] \<Rightarrow> False | c # cs \<Rightarrow> glob_match (p # ps) cs)
             else glob_match ps path \<or>
                  (case path of [] \<Rightarrow> False | c # cs \<Rightarrow> c \<noteq> CHR ''/'' \<and> glob_match (p # ps) cs)
         | [] \<Rightarrow> (case path of [] \<Rightarrow> True | c # cs \<Rightarrow> c \<noteq> CHR ''/'' \<and> glob_match (p # ps) cs))
      else
        (case path of
           [] \<Rightarrow> False
         | c # cs \<Rightarrow> (if p = CHR ''?'' then c \<noteq> CHR ''/'' else c = p) \<and> glob_match ps cs))"

text \<open>
  An environment in which every request succeeds, no team exists yet, the client is
  authenticated as \<open>svc-bot\<close> and team names are their own slugs. The scenarios change
  the fields they are about.
\<close>

definition env_quiet :: env where
  "env_quiet =
     \<lparr> core_getInput = (\<lambda>name required. Inr ''input''),
       slugify = (\<lambda>name. name),
       minimatch = glob_match,
       yaml_safeLoad = (\<lambda>content.
         Inr \<lparr> file_pattern_labels = None, team_labels = Some [],
               teams_configuration_location = None \<rparr>),
       json_parse = (\<lambda>content. Inr []),
       users_getAuthenticated = (\<lambda>tr. Inr ''svc-bot''),
       repos_getContents = (\<lambda>tr. Inr ''''),
       pulls_listFiles = (\<lambda>tr. Inr []),
       teams_getByName = (\<lambda>tr. Inl (HttpError 404 ''Not Found'')),
       teams_listMembersInOrg = (\<lambda>tr. Inl (HttpError 404 ''Not Found'')),
       mutate = (\<lambda>tr. Inr ()) \<rparr>"

text \<open>
  The team \<open>core\<close> exists with the members \<open>bob\<close> and \<open>carol\<close>.
\<close>

definition env_present :: env where
  "env_present =
     env_quiet
       \<lparr> teams_getByName := (\<lambda>tr. Inr (Team 1 ''core'')),
         teams_listMembersInOrg := (\<lambda>tr. Inr [''bob'', ''carol'']) \<rparr>"


text \<open>
  The lookup of a team is answered by a server error, not by "not found"; in
  \<open>env_unlisted\<close> the team is found and it is the list of its members that fails. The
  team-data file of \<open>env_outage\<close> asks for the team \<open>core\<close> with the member \<open>alice\<close>.
\<close>

definition env_outage :: env where
  "env_outage =
     env_quiet
       \<lparr> json_parse := (\<lambda>content. Inr [(''core'', \<lparr>members = Some [''alice''], short = None\<rparr>)]),
         teams_getByName := (\<lambda>tr. Inl (HttpError 500 ''Internal Server Error'')) \<rparr>"

definition env_unlisted :: env where
  "env_unlisted =
     env_quiet
       \<lparr> teams_getByName := (\<lambda>tr. Inr (Team 1 ''core'')),
         teams_listMembersInOrg := (\<lambda>tr. Inl (HttpError 502 ''Bad Gateway'')) \<rparr>"

definition ctx_acme :: github_context where
  "ctx_acme = \<lparr> repo_owner = ''acme'', repo_name = ''repo'', payload_pull_request = None \<rparr>"


text \<open>
  A rule list whose patterns are strings, as the \<open>Map\<close> that \<open>getLabelGlobs\<close>
  returns for it.
\<close>

definition labelRules :: "(string \<times> string list) list \<Rightarrow> (string \<times> yaml list) list" where
  "labelRules rules = map (\<lambda>(label, patterns). (label, map YString patterns)) rules"


text \<open>The label lists of the apply-labels requests among the requests sent.\<close>

fun appliedLabels :: "call \<Rightarrow> string list option" where
  "appliedLabels (IssuesAddLabels prNumber labels) = Some labels"
| "appliedLabels c = None"

definition labelsApplied :: "call list \<Rightarrow> string list list" where
  "labelsApplied cs = List.map_filter appliedLabels cs"

text \<open>
  Pull request 7 of \<open>dave\<close>. In \<open>env_overlap\<close> the label \<open>infra\<close> is a glob rule that
  matches the changed file and also a team that \<open>dave\<close> is in. In \<open>env_mixed\<close> the rule
  of the label \<open>x\<close> is an array of a pattern and a number.
\<close>

definition ctx_dave :: github_context where
  "ctx_dave =
     \<lparr> repo_owner = ''acme'', repo_name = ''repo'',
       payload_pull_request = Some \<lparr> number = 7, user_login = ''dave'' \<rparr> \<rparr>"

definition env_overlap :: env where
  "env_overlap =
     env_quiet
       \<lparr> yaml_safeLoad := (\<lambda>content.
           Inr \<lparr> file_pattern_labels = Some [(''infra'', YString ''*.tf'')],
                 team_labels = Some [(''infra'', [''dave''])],
                 teams_configuration_location = None \<rparr>),
         pulls_listFiles := (\<lambda>tr. Inr [''main.tf'']) \<rparr>"

definition env_mixed :: env where
  "env_mixed =
     env_quiet
       \<lparr> yaml_safeLoad := (\<lambda>content.
           Inr \<lparr> file_pattern_labels = Some [(''x'', YArray [YString ''*.md'', YNumber 5])],
                 team_labels = Some [],
                 teams_configuration_location = None \<rparr>),
         pulls_listFiles := (\<lambda>tr. Inr [''README.md'']) \<rparr>"


text \<open>The team map of \<open>env_unknown\<close> lists a member called \<open>unknown\<close>.\<close>

definition env_unknown :: env where
  "env_unknown =
     env_quiet
       \<lparr> yaml_safeLoad := (\<lambda>content.
           Inr \<lparr> file_pattern_labels = Some [(''docs'', YString ''**'')],
                 team_labels = Some [(''infra'', [''unknown''])],
                 teams_configuration_location = None \<rparr>) \<rparr>"

section \<open>Properties of the team synchroniser\<close>

lemma removedUsernames_append:
  "removedUsernames (xs @ ys) = removedUsernames xs @ removedUsernames ys"
  by (simp add: removedUsernames_def map_filter_def)

lemma addedUsernames_append:
  "addedUsernames (xs @ ys) = addedUsernames xs @ addedUsernames ys"
  by (simp add: addedUsernames_def map_filter_def)

lemma removedUsernames_removes:
  "removedUsernames (map (TeamsRemoveMembershipInOrg org slug) us) = us"
  by (induction us) (simp_all add: removedUsernames_def map_filter_simps)

lemma removedUsernames_adds:
  "removedUsernames (map (TeamsAddOrUpdateMembershipInOrg org slug) us) = []"
  by (induction us) (simp_all add: removedUsernames_def map_filter_simps)

lemma addedUsernames_adds:
  "addedUsernames (map (TeamsAddOrUpdateMembershipInOrg org slug) us) = us"
  by (induction us) (simp_all add: addedUsernames_def map_filter_simps)

lemma addedUsernames_removes:
  "addedUsernames (map (TeamsRemoveMembershipInOrg org slug) us) = []"
  by (induction us) (simp_all add: addedUsernames_def map_filter_simps)

lemma removedUsernames_prefix:
  "prefix cs ds \<Longrightarrow> set (removedUsernames cs) \<subseteq> set (removedUsernames ds)"
  by (auto simp: prefix_def removedUsernames_append)

lemma addedUsernames_prefix:
  "prefix cs ds \<Longrightarrow> set (addedUsernames cs) \<subseteq> set (addedUsernames ds)"
  by (auto simp: prefix_def addedUsernames_append)

lemma removeMembers_trace:
  "removeMembers env org slug desired xs tr = (r, tr') \<Longrightarrow>
   \<exists>cs. tr' = tr @ cs \<and>
        prefix cs (map (TeamsRemoveMembershipInOrg org slug) (filter (\<lambda>u. u \<notin> set desired) xs)) \<and>
        (r = Inr () \<longrightarrow> cs = map (TeamsRemoveMembershipInOrg org slug) (filter (\<lambda>u. u \<notin> set desired) xs))"
proof (induction xs arbitrary: tr)
  case Nil
  then show ?case by simp
next
  case (Cons u xs)
  show ?case
  proof (cases "u \<in> set desired")
    case True
    with Cons.prems have "removeMembers env org slug desired xs tr = (r, tr')"
      by simp
    from Cons.IH [OF this] True show ?thesis by simp
  next
    case False
    let ?c = "TeamsRemoveMembershipInOrg org slug u"
    show ?thesis
    proof (cases "mutate env (tr @ [?c])")
      case (Inl e)
      with False Cons.prems have "tr' = tr @ [?c]" "r = Inl e"
        by (auto simp: request_def)
      with False show ?thesis by simp
    next
      case (Inr v)
      with False Cons.prems have "removeMembers env org slug desired xs (tr @ [?c]) = (r, tr')"
        by (simp add: request_def)
      from Cons.IH [OF this] obtain cs where
        cs: "tr' = (tr @ [?c]) @ cs"
            "prefix cs (map (TeamsRemoveMembershipInOrg org slug) (filter (\<lambda>u. u \<notin> set desired) xs))"
            "r = Inr () \<longrightarrow> cs = map (TeamsRemoveMembershipInOrg org slug) (filter (\<lambda>u. u \<notin> set desired) xs)"
        by blast
      with False show ?thesis
        by (intro exI [of _ "?c # cs"]) simp
    qed
  qed
qed

lemma addMembers_trace:
  "addMembers env org slug existing xs tr = (r, tr') \<Longrightarrow>
   \<exists>cs. tr' = tr @ cs \<and>
        prefix cs (map (TeamsAddOrUpdateMembershipInOrg org slug) (filter (\<lambda>u. u \<notin> set existing) xs)) \<and>
        (r = Inr () \<longrightarrow> cs = map (TeamsAddOrUpdateMembershipInOrg org slug) (filter (\<lambda>u. u \<notin> set existing) xs))"
proof (induction xs arbitrary: tr)
  case Nil
  then show ?case by simp
next
  case (Cons u xs)
  show ?case
  proof (cases "u \<in> set existing")
    case True
    with Cons.prems have "addMembers env org slug existing xs tr = (r, tr')"
      by simp
    from Cons.IH [OF this] True show ?thesis by simp
  next
    case False
    let ?c = "TeamsAddOrUpdateMembershipInOrg org slug u"
    show ?thesis
    proof (cases "mutate env (tr @ [?c])")
      case (Inl e)
      with False Cons.prems have "tr' = tr @ [?c]" "r = Inl e"
        by (auto simp: request_def)
      with False show ?thesis by simp
    next
      case (Inr v)
      with False Cons.prems have "addMembers env org slug existing xs (tr @ [?c]) = (r, tr')"
        by (simp add: request_def)
      from Cons.IH [OF this] obtain cs where
        cs: "tr' = (tr @ [?c]) @ cs"
            "prefix cs (map (TeamsAddOrUpdateMembershipInOrg org slug) (filter (\<lambda>u. u \<notin> set existing) xs))"
            "r = Inr () \<longrightarrow> cs = map (TeamsAddOrUpdateMembershipInOrg org slug) (filter (\<lambda>u. u \<notin> set existing) xs)"
        by blast
      with False show ?thesis
        by (intro exI [of _ "?c # cs"]) simp
    qed
  qed
qed

text \<open>Nothing to remove: the loop sends nothing and cannot fail.\<close>

lemma removeMembers_nothing:
  "set xs \<subseteq> set desired \<Longrightarrow> removeMembers env org slug desired xs tr = (Inr (), tr)"
  by (induction xs arbitrary: tr) simp_all

lemma addMembers_nothing:
  "set xs \<subseteq> set existing \<Longrightarrow> addMembers env org slug existing xs tr = (Inr (), tr)"
  by (induction xs arbitrary: tr) simp_all

lemma createTeamWithNoMembers_trace:
  "createTeamWithNoMembers env org teamName slug login tr = (r, tr') \<Longrightarrow>
   (case mutate env (tr @ [TeamsCreate org teamName]) of
      Inl e \<Rightarrow> r = Inl e \<and> tr' = tr @ [TeamsCreate org teamName]
    | Inr u \<Rightarrow> r = mutate env (tr @ [TeamsCreate org teamName, TeamsRemoveMembershipInOrg org slug login]) \<and>
              tr' = tr @ [TeamsCreate org teamName, TeamsRemoveMembershipInOrg org slug login])"
  by (auto simp: createTeamWithNoMembers_def bind_io_def request_def split: sum.splits)

lemma getExistingTeamAndMembers_cases:
  "getExistingTeamAndMembers env org slug tr =
     (case teams_getByName env (tr @ [TeamsGetByName org slug]) of
        Inl e \<Rightarrow> (Inr (None, []), tr @ [TeamsGetByName org slug])
      | Inr t \<Rightarrow>
          (case teams_listMembersInOrg env (tr @ [TeamsGetByName org slug, TeamsListMembersInOrg org slug]) of
             Inl e \<Rightarrow> (Inr (None, []), tr @ [TeamsGetByName org slug, TeamsListMembersInOrg org slug])
           | Inr ms \<Rightarrow> (Inr (Some t, ms), tr @ [TeamsGetByName org slug, TeamsListMembersInOrg org slug])))"
  by (simp add: getExistingTeamAndMembers_def request_def split: sum.splits)

lemma synchronizeTeam_unfold:
  assumes "getExistingTeamAndMembers env org (slugify env teamName) tr0 = (Inr (existingTeam, current), tr1)"
  shows "synchronizeTeam env org login (teamName, \<lparr>members = Some desired, short = sh\<rparr>) tr0 =
     bind_io (case existingTeam of
                Some t \<Rightarrow> removeMembers env org (slugify env teamName) desired current
              | None \<Rightarrow> createTeamWithNoMembers env org teamName (slugify env teamName) login)
       (\<lambda>u. addMembers env org (slugify env teamName) current desired) tr1"
  using assms by (simp add: synchronizeTeam_def bind_io_def Let_def)

lemma synchronizeTeam_update:
  assumes lookup: "getExistingTeamAndMembers env org (slugify env teamName) tr0 = (Inr (Some t, current), tr1)"
    and run: "synchronizeTeam env org login (teamName, \<lparr>members = Some desired, short = sh\<rparr>) tr0 = (res, tr2)"
  shows "\<exists>cs. tr2 = tr1 @ cs \<and>
     prefix cs (map (TeamsRemoveMembershipInOrg org (slugify env teamName)) (filter (\<lambda>u. u \<notin> set desired) current) @
                map (TeamsAddOrUpdateMembershipInOrg org (slugify env teamName)) (filter (\<lambda>u. u \<notin> set current) desired)) \<and>
     (res = Inr () \<longrightarrow> cs =
        map (TeamsRemoveMembershipInOrg org (slugify env teamName)) (filter (\<lambda>u. u \<notin> set desired) current) @
        map (TeamsAddOrUpdateMembershipInOrg org (slugify env teamName)) (filter (\<lambda>u. u \<notin> set current) desired))"
proof -
  let ?slug = "slugify env teamName"
  let ?rs = "map (TeamsRemoveMembershipInOrg org ?slug) (filter (\<lambda>u. u \<notin> set desired) current)"
  let ?as = "map (TeamsAddOrUpdateMembershipInOrg org ?slug) (filter (\<lambda>u. u \<notin> set current) desired)"
  obtain r1 tr1' where rm: "removeMembers env org ?slug desired current tr1 = (r1, tr1')"
    by (cases "removeMembers env org ?slug desired current tr1")
  from removeMembers_trace [OF rm] obtain cs1 where
    cs1: "tr1' = tr1 @ cs1" "prefix cs1 ?rs" "r1 = Inr () \<longrightarrow> cs1 = ?rs"
    by blast
  from run have steps: "bind_io (removeMembers env org ?slug desired current)
       (\<lambda>u. addMembers env org ?slug current desired) tr1 = (res, tr2)"
    by (simp add: synchronizeTeam_unfold [OF lookup])
  show ?thesis
  proof (cases r1)
    case (Inl e)
    with steps rm have "res = Inl e" "tr2 = tr1'"
      by (simp_all add: bind_io_def)
    with cs1 show ?thesis
      by (intro exI [of _ cs1]) (simp add: prefix_prefix)
  next
    case (Inr u)
    with steps rm have add: "addMembers env org ?slug current desired tr1' = (res, tr2)"
      by (simp add: bind_io_def)
    from addMembers_trace [OF add] obtain cs2 where
      cs2: "tr2 = tr1' @ cs2" "prefix cs2 ?as" "res = Inr () \<longrightarrow> cs2 = ?as"
      by blast
    from Inr cs1 have "cs1 = ?rs" by simp
    with cs1 cs2 show ?thesis
      by (intro exI [of _ "?rs @ cs2"]) simp
  qed
qed

lemma synchronizeTeam_create:
  assumes lookup: "getExistingTeamAndMembers env org (slugify env teamName) tr0 = (Inr (None, current), tr1)"
    and run: "synchronizeTeam env org login (teamName, \<lparr>members = Some desired, short = sh\<rparr>) tr0 = (res, tr2)"
  shows "\<exists>cs. tr2 = tr1 @ cs \<and> cs \<noteq> [] \<and>
     prefix cs (TeamsCreate org teamName # TeamsRemoveMembershipInOrg org (slugify env teamName) login #
                map (TeamsAddOrUpdateMembershipInOrg org (slugify env teamName)) desired) \<and>
     (mutate env (tr1 @ [TeamsCreate org teamName]) = Inr () \<longrightarrow>
        take 2 cs = [TeamsCreate org teamName, TeamsRemoveMembershipInOrg org (slugify env teamName) login]) \<and>
     (res = Inr () \<longrightarrow> cs =
        TeamsCreate org teamName # TeamsRemoveMembershipInOrg org (slugify env teamName) login #
        map (TeamsAddOrUpdateMembershipInOrg org (slugify env teamName)) desired)"
proof -
  let ?slug = "slugify env teamName"
  let ?C = "TeamsCreate org teamName"
  let ?R = "TeamsRemoveMembershipInOrg org ?slug login"
  let ?as = "map (TeamsAddOrUpdateMembershipInOrg org ?slug) desired"
  from lookup have current: "current = []"
    by (simp add: getExistingTeamAndMembers_cases split: sum.splits)
  obtain r1 tr1' where cr: "createTeamWithNoMembers env org teamName ?slug login tr1 = (r1, tr1')"
    by (cases "createTeamWithNoMembers env org teamName ?slug login tr1")
  from run have steps: "bind_io (createTeamWithNoMembers env org teamName ?slug login)
       (\<lambda>u. addMembers env org ?slug current desired) tr1 = (res, tr2)"
    by (simp add: synchronizeTeam_unfold [OF lookup])
  show ?thesis
  proof (cases "mutate env (tr1 @ [?C])")
    case (Inl e)
    with createTeamWithNoMembers_trace [OF cr] have "r1 = Inl e" "tr1' = tr1 @ [?C]"
      by simp_all
    with steps cr have "res = Inl e" "tr2 = tr1 @ [?C]"
      by (simp_all add: bind_io_def)
    with Inl show ?thesis
      by (intro exI [of _ "[?C]"]) simp
  next
    case (Inr v)
    with createTeamWithNoMembers_trace [OF cr]
    have r1: "r1 = mutate env (tr1 @ [?C, ?R])" and tr1': "tr1' = tr1 @ [?C, ?R]"
      by simp_all
    show ?thesis
    proof (cases r1)
      case (Inl e)
      with steps cr tr1' have "res = Inl e" "tr2 = tr1 @ [?C, ?R]"
        by (simp_all add: bind_io_def)
      then show ?thesis
        by (intro exI [of _ "[?C, ?R]"]) simp
    next
      case (Inr w)
      with steps cr have add: "addMembers env org ?slug current desired tr1' = (res, tr2)"
        by (simp add: bind_io_def)
      from addMembers_trace [OF add] current obtain cs2 where
        cs2: "tr2 = tr1' @ cs2" "prefix cs2 ?as" "res = Inr () \<longrightarrow> cs2 = ?as"
        by auto
      with tr1' show ?thesis
        by (intro exI [of _ "?C # ?R # cs2"]) simp
    qed
  qed
qed

text \<open>
  The round for a team that exists sends, after the lookup, membership requests only: it
  adds no username outside \<open>desired - current\<close> and removes none outside
  \<open>current - desired\<close>, exactly these when no request fails, and nothing when the two
  sets are the same.
\<close>

lemma synchronizeTeam_update_diff:
  assumes lookup:
      "getExistingTeamAndMembers env org (slugify env teamName) tr0 = (Inr (Some t, current), tr1)"
    and run:
      "synchronizeTeam env org login (teamName, \<lparr>members = Some desired, short = sh\<rparr>) tr0 = (res, tr2)"
  shows "\<exists>cs. tr2 = tr1 @ cs \<and>
     set (addedUsernames cs) \<subseteq> set desired - set current \<and>
     set (removedUsernames cs) \<subseteq> set current - set desired \<and>
     (res = Inr () \<longrightarrow>
        set (addedUsernames cs) = set desired - set current \<and>
        set (removedUsernames cs) = set current - set desired) \<and>
     set (addedUsernames cs) \<inter> set (removedUsernames cs) = {} \<and>
     (\<forall>u. u \<notin> (set desired - set current) \<union> (set current - set desired) \<longrightarrow>
          u \<notin> set (addedUsernames cs) \<union> set (removedUsernames cs)) \<and>
     (\<forall>c \<in> set cs. removedUsername c \<noteq> None \<or> addedUsername c \<noteq> None) \<and>
     (set desired = set current \<longrightarrow> cs = [] \<and> res = Inr ())"
proof -
  let ?slug = "slugify env teamName"
  let ?rs = "map (TeamsRemoveMembershipInOrg org ?slug) (filter (\<lambda>u. u \<notin> set desired) current)"
  let ?as = "map (TeamsAddOrUpdateMembershipInOrg org ?slug) (filter (\<lambda>u. u \<notin> set current) desired)"
  from synchronizeTeam_update [OF lookup run] obtain cs where
    tr2: "tr2 = tr1 @ cs" and pre: "prefix cs (?rs @ ?as)" and full: "res = Inr () \<longrightarrow> cs = ?rs @ ?as"
    by blast
  have added_full: "addedUsernames (?rs @ ?as) = filter (\<lambda>u. u \<notin> set current) desired"
    by (simp add: addedUsernames_append addedUsernames_adds addedUsernames_removes)
  have removed_full: "removedUsernames (?rs @ ?as) = filter (\<lambda>u. u \<notin> set desired) current"
    by (simp add: removedUsernames_append removedUsernames_adds removedUsernames_removes)
  have added: "set (addedUsernames cs) \<subseteq> set desired - set current"
    using addedUsernames_prefix [OF pre] unfolding added_full by auto
  have removed: "set (removedUsernames cs) \<subseteq> set current - set desired"
    using removedUsernames_prefix [OF pre] unfolding removed_full by auto
  have exact: "res = Inr () \<longrightarrow>
        set (addedUsernames cs) = set desired - set current \<and>
        set (removedUsernames cs) = set current - set desired"
  proof
    assume "res = Inr ()"
    with full have "cs = ?rs @ ?as" by simp
    then show "set (addedUsernames cs) = set desired - set current \<and>
        set (removedUsernames cs) = set current - set desired"
      using added_full removed_full by auto
  qed
  have disjoint: "set (addedUsernames cs) \<inter> set (removedUsernames cs) = {}"
    using added removed by auto
  have untouched: "\<forall>u. u \<notin> (set desired - set current) \<union> (set current - set desired) \<longrightarrow>
          u \<notin> set (addedUsernames cs) \<union> set (removedUsernames cs)"
    using added removed by auto
  have only: "\<forall>c \<in> set cs. removedUsername c \<noteq> None \<or> addedUsername c \<noteq> None"
  proof
    fix c assume "c \<in> set cs"
    with set_mono_prefix [OF pre] have "c \<in> set (?rs @ ?as)" by blast
    then show "removedUsername c \<noteq> None \<or> addedUsername c \<noteq> None" by auto
  qed
  have converged: "set desired = set current \<longrightarrow> cs = [] \<and> res = Inr ()"
  proof
    assume same: "set desired = set current"
    then have "removeMembers env org ?slug desired current tr1 = (Inr (), tr1)"
      and "addMembers env org ?slug current desired tr1 = (Inr (), tr1)"
      by (simp_all add: removeMembers_nothing addMembers_nothing)
    with run have "res = Inr ()" "tr2 = tr1"
      by (simp_all add: synchronizeTeam_unfold [OF lookup] bind_io_def)
    with tr2 show "cs = [] \<and> res = Inr ()" by simp
  qed
  from tr2 added removed exact disjoint untouched only converged show ?thesis
    by blast
qed

lemma env_quiet_fields:
  "slugify env_quiet = (\<lambda>name. name)"
  "teams_getByName env_quiet = (\<lambda>tr. Inl (HttpError 404 ''Not Found''))"
  "teams_listMembersInOrg env_quiet = (\<lambda>tr. Inl (HttpError 404 ''Not Found''))"
  "mutate env_quiet = (\<lambda>tr. Inr ())"
  "users_getAuthenticated env_quiet = (\<lambda>tr. Inr ''svc-bot'')"
  "core_getInput env_quiet = (\<lambda>name required. Inr ''input'')"
  "repos_getContents env_quiet = (\<lambda>tr. Inr '''')"
  "minimatch env_quiet = glob_match"
  by (simp_all add: env_quiet_def)

lemma github_replay_adds:
  "teams teamSlug = Some ms \<Longrightarrow>
   github_replay slug creator (map (TeamsAddOrUpdateMembershipInOrg org teamSlug) us) teams teamSlug =
     Some (ms \<union> set us)"
  unfolding github_replay_def
  by (induction us arbitrary: teams ms) auto

lemma github_replay_creation:
  assumes "teams (slug teamName) = None"
  shows "github_replay slug creator
           (TeamsCreate org teamName # TeamsRemoveMembershipInOrg org (slug teamName) creator #
            map (TeamsAddOrUpdateMembershipInOrg org (slug teamName)) desired)
           teams (slug teamName) = Some (set desired)"
proof -
  let ?created = "github_apply slug creator (TeamsCreate org teamName) teams"
  let ?emptied = "github_apply slug creator (TeamsRemoveMembershipInOrg org (slug teamName) creator) ?created"
  from assms have emptied: "?emptied (slug teamName) = Some {}"
    by simp
  have "github_replay slug creator
          (map (TeamsAddOrUpdateMembershipInOrg org (slug teamName)) desired) ?emptied (slug teamName) =
        Some ({} \<union> set desired)"
    using emptied by (rule github_replay_adds)
  then show ?thesis
    by (simp add: github_replay_def)
qed

lemma removedUsernames_creation:
  "removedUsernames
     (TeamsCreate org teamName # TeamsRemoveMembershipInOrg org teamSlug login #
      map (TeamsAddOrUpdateMembershipInOrg org teamSlug) us) = [login]"
proof -
  have "removedUsernames
     ([TeamsCreate org teamName, TeamsRemoveMembershipInOrg org teamSlug login] @
      map (TeamsAddOrUpdateMembershipInOrg org teamSlug) us) = [login]"
    unfolding removedUsernames_append removedUsernames_adds
    by (simp add: removedUsernames_def map_filter_simps)
  then show ?thesis by simp
qed

lemma addedUsernames_creation:
  "addedUsernames
     (TeamsCreate org teamName # TeamsRemoveMembershipInOrg org teamSlug login #
      map (TeamsAddOrUpdateMembershipInOrg org teamSlug) us) = us"
proof -
  have "addedUsernames
     ([TeamsCreate org teamName, TeamsRemoveMembershipInOrg org teamSlug login] @
      map (TeamsAddOrUpdateMembershipInOrg org teamSlug) us) = us"
    unfolding addedUsernames_append addedUsernames_adds
    by (simp add: addedUsernames_def map_filter_simps)
  then show ?thesis by simp
qed

text \<open>
  The round for a team that the lookup did not find: \<open>current\<close> is empty, the desired
  members are added, and the one removal is that of the authenticated identity, sent as
  soon as the team is created.
\<close>

lemma synchronizeTeam_create_diff:
  assumes lookup:
      "getExistingTeamAndMembers env org (slugify env teamName) tr0 = (Inr (None, current), tr1)"
    and run:
      "synchronizeTeam env org login (teamName, \<lparr>members = Some desired, short = sh\<rparr>) tr0 = (res, tr2)"
  shows "\<exists>cs. tr2 = tr1 @ cs \<and>
     set (addedUsernames cs) \<subseteq> set desired - set current \<and>
     (res = Inr () \<longrightarrow> set (addedUsernames cs) = set desired - set current) \<and>
     current = [] \<and>
     set (removedUsernames cs) \<subseteq> {login} \<and>
     (mutate env (tr1 @ [TeamsCreate org teamName]) = Inr () \<longrightarrow>
        set (removedUsernames cs) = {login})"
proof -
  let ?slug = "slugify env teamName"
  let ?C = "TeamsCreate org teamName"
  let ?R = "TeamsRemoveMembershipInOrg org ?slug login"
  let ?all = "?C # ?R # map (TeamsAddOrUpdateMembershipInOrg org ?slug) desired"
  from lookup have current: "current = []"
    by (simp add: getExistingTeamAndMembers_cases split: sum.splits)
  from synchronizeTeam_create [OF lookup run] obtain cs where
    cs: "tr2 = tr1 @ cs" "prefix cs ?all"
        "mutate env (tr1 @ [?C]) = Inr () \<longrightarrow> take 2 cs = [?C, ?R]"
        "res = Inr () \<longrightarrow> cs = ?all"
    by blast
  have added: "set (addedUsernames cs) \<subseteq> set desired - set current"
    using addedUsernames_prefix [OF cs(2)] unfolding addedUsernames_creation current by simp
  have added_all: "res = Inr () \<longrightarrow> set (addedUsernames cs) = set desired - set current"
  proof
    assume "res = Inr ()"
    with cs(4) have "cs = ?all" by simp
    then show "set (addedUsernames cs) = set desired - set current"
      unfolding current by (simp add: addedUsernames_creation)
  qed
  have removed: "set (removedUsernames cs) \<subseteq> {login}"
    using removedUsernames_prefix [OF cs(2)] unfolding removedUsernames_creation by simp
  have removed_sent: "mutate env (tr1 @ [?C]) = Inr () \<longrightarrow> set (removedUsernames cs) = {login}"
  proof
    assume "mutate env (tr1 @ [?C]) = Inr ()"
    with cs(3) have "take 2 cs = [?C, ?R]" by simp
    then have "cs = [?C, ?R] @ drop 2 cs"
      by (metis append_take_drop_id)
    then have "removedUsernames cs = removedUsernames [?C, ?R] @ removedUsernames (drop 2 cs)"
      by (metis removedUsernames_append)
    then have "login \<in> set (removedUsernames cs)"
      by (simp add: removedUsernames_def map_filter_simps)
    with removed show "set (removedUsernames cs) = {login}"
      by blast
  qed
  show ?thesis
    by (intro exI [of _ cs] conjI) (fact cs(1) added added_all current removed removed_sent)+
qed

text \<open>
  Claim C1, as the code has it. With \<open>current\<close> the members the lookup returned, empty
  when it found no team, and \<open>desired\<close> the members of the team-data file: the round for
  the team adds no username outside \<open>desired - current\<close>, and exactly these when no
  request fails. On a team that exists it sends membership requests only and removes no
  username outside \<open>current - desired\<close>, exactly these when no request fails; the added
  and the removed usernames are disjoint, a username in neither difference is in no
  request, and when \<open>desired\<close> and \<open>current\<close> are the same set nothing is sent and
  the round succeeds. On a team that the lookup did not find, the one removal is that of
  the authenticated identity, a username of neither difference, sent as soon as the team
  is created.
\<close>

theorem membership_diff:
  assumes lookup:
      "getExistingTeamAndMembers env org (slugify env teamName) tr0 = (Inr (existingTeam, current), tr1)"
    and run:
      "synchronizeTeam env org login (teamName, \<lparr>members = Some desired, short = sh\<rparr>) tr0 = (res, tr2)"
  shows "\<exists>cs. tr2 = tr1 @ cs \<and>
     set (addedUsernames cs) \<subseteq> set desired - set current \<and>
     (res = Inr () \<longrightarrow> set (addedUsernames cs) = set desired - set current) \<and>
     (case existingTeam of
        Some t \<Rightarrow>
          set (removedUsernames cs) \<subseteq> set current - set desired \<and>
          (res = Inr () \<longrightarrow> set (removedUsernames cs) = set current - set desired) \<and>
          set (addedUsernames cs) \<inter> set (removedUsernames cs) = {} \<and>
          (\<forall>u. u \<notin> (set desired - set current) \<union> (set current - set desired) \<longrightarrow>
               u \<notin> set (addedUsernames cs) \<union> set (removedUsernames cs)) \<and>
          (\<forall>c \<in> set cs. removedUsername c \<noteq> None \<or> addedUsername c \<noteq> None) \<and>
          (set desired = set current \<longrightarrow> cs = [] \<and> res = Inr ())
      | None \<Rightarrow>
          current = [] \<and>
          set (removedUsernames cs) \<subseteq> {login} \<and>
          (mutate env (tr1 @ [TeamsCreate org teamName]) = Inr () \<longrightarrow>
             set (removedUsernames cs) = {login}))"
proof (cases existingTeam)
  case None
  from synchronizeTeam_create_diff [OF lookup [unfolded None] run] obtain cs where
    cs: "tr2 = tr1 @ cs"
        "set (addedUsernames cs) \<subseteq> set desired - set current"
        "res = Inr () \<longrightarrow> set (addedUsernames cs) = set desired - set current"
        "current = []"
        "set (removedUsernames cs) \<subseteq> {login}"
        "mutate env (tr1 @ [TeamsCreate org teamName]) = Inr () \<longrightarrow>
           set (removedUsernames cs) = {login}"
    by blast
  show ?thesis
    unfolding None option.case
    by (intro exI [of _ cs] conjI) (fact cs)+
next
  case (Some t)
  from synchronizeTeam_update_diff [OF lookup [unfolded Some] run] obtain cs where
    cs: "tr2 = tr1 @ cs"
        "set (addedUsernames cs) \<subseteq> set desired - set current"
        "set (removedUsernames cs) \<subseteq> set current - set desired"
        "res = Inr () \<longrightarrow>
           set (addedUsernames cs) = set desired - set current \<and>
           set (removedUsernames cs) = set current - set desired"
        "set (addedUsernames cs) \<inter> set (removedUsernames cs) = {}"
        "\<forall>u. u \<notin> (set desired - set current) \<union> (set current - set desired) \<longrightarrow>
             u \<notin> set (addedUsernames cs) \<union> set (removedUsernames cs)"
        "\<forall>c \<in> set cs. removedUsername c \<noteq> None \<or> addedUsername c \<noteq> None"
        "set desired = set current \<longrightarrow> cs = [] \<and> res = Inr ()"
    by blast
  from cs(4) have added_all: "res = Inr () \<longrightarrow> set (addedUsernames cs) = set desired - set current"
    and removed_all: "res = Inr () \<longrightarrow> set (removedUsernames cs) = set current - set desired"
    by simp_all
  show ?thesis
    unfolding Some option.case
    by (intro exI [of _ cs] conjI)
      (fact cs(1) cs(2) cs(3) cs(5) cs(6) cs(7) cs(8) added_all removed_all)+
qed

lemma env_present_fields:
  "slugify env_present = (\<lambda>name. name)"
  "teams_getByName env_present = (\<lambda>tr. Inr (Team 1 ''core''))"
  "teams_listMembersInOrg env_present = (\<lambda>tr. Inr [''bob'', ''carol''])"
  "mutate env_present = (\<lambda>tr. Inr ())"
  by (simp_all add: env_present_def env_quiet_def)

text \<open>
  The scenario of the spec: desired \<open>alice\<close> and \<open>bob\<close>, current \<open>bob\<close> and \<open>carol\<close>;
  \<open>carol\<close> is removed and \<open>alice\<close> is added.
\<close>

theorem membership_diff_witness:
  "getExistingTeamAndMembers env_present ''acme'' (slugify env_present ''core'') [] =
     (Inr (Some (Team 1 ''core''), [''bob'', ''carol'']),
      [TeamsGetByName ''acme'' ''core'', TeamsListMembersInOrg ''acme'' ''core'']) \<and>
   synchronizeTeam env_present ''acme'' ''svc-bot''
       (''core'', \<lparr>members = Some [''alice'', ''bob''], short = None\<rparr>) [] =
     (Inr (),
      [TeamsGetByName ''acme'' ''core'', TeamsListMembersInOrg ''acme'' ''core'',
       TeamsRemoveMembershipInOrg ''acme'' ''core'' ''carol'',
       TeamsAddOrUpdateMembershipInOrg ''acme'' ''core'' ''alice'']) \<and>
   (\<exists>cs. [TeamsGetByName ''acme'' ''core'', TeamsListMembersInOrg ''acme'' ''core'',
          TeamsRemoveMembershipInOrg ''acme'' ''core'' ''carol'',
          TeamsAddOrUpdateMembershipInOrg ''acme'' ''core'' ''alice''] =
         [TeamsGetByName ''acme'' ''core'', TeamsListMembersInOrg ''acme'' ''core''] @ cs \<and>
        set (addedUsernames cs) = {''alice''} \<and>
        set (removedUsernames cs) = {''carol''})"
proof -
  have lookup:
    "getExistingTeamAndMembers env_present ''acme'' (slugify env_present ''core'') [] =
       (Inr (Some (Team 1 ''core''), [''bob'', ''carol'']),
        [TeamsGetByName ''acme'' ''core'', TeamsListMembersInOrg ''acme'' ''core''])"
    by (simp add: getExistingTeamAndMembers_cases env_present_fields)
  have run:
    "synchronizeTeam env_present ''acme'' ''svc-bot''
         (''core'', \<lparr>members = Some [''alice'', ''bob''], short = None\<rparr>) [] =
       (Inr (),
        [TeamsGetByName ''acme'' ''core'', TeamsListMembersInOrg ''acme'' ''core'',
         TeamsRemoveMembershipInOrg ''acme'' ''core'' ''carol'',
         TeamsAddOrUpdateMembershipInOrg ''acme'' ''core'' ''alice''])"
    using lookup
    by (simp add: synchronizeTeam_unfold [OF lookup] bind_io_def request_def env_present_fields)
  from membership_diff [OF lookup run] obtain cs where
    "[TeamsGetByName ''acme'' ''core'', TeamsListMembersInOrg ''acme'' ''core'',
      TeamsRemoveMembershipInOrg ''acme'' ''core'' ''carol'',
      TeamsAddOrUpdateMembershipInOrg ''acme'' ''core'' ''alice''] =
     [TeamsGetByName ''acme'' ''core'', TeamsListMembersInOrg ''acme'' ''core''] @ cs"
    "set (addedUsernames cs) = set [''alice'', ''bob''] - set [''bob'', ''carol'']"
    "set (removedUsernames cs) = set [''bob'', ''carol''] - set [''alice'', ''bob'']"
    by auto
  moreover have "set [''alice'', ''bob''] - set [''bob'', ''carol''] = {''alice''}"
    and "set [''bob'', ''carol''] - set [''alice'', ''bob''] = {''carol''}"
    by auto
  ultimately show ?thesis
    using lookup run by metis
qed

text \<open>
  Claim C1 as the spec states it fails on a team that does not exist yet: with desired
  \<open>alice\<close> and no current member, \<open>svc-bot\<close> is in neither difference, and its
  removal is sent.
\<close>

theorem creator_outside_diff_removed_counterexample:
  "getExistingTeamAndMembers env_quiet ''acme'' (slugify env_quiet ''core'') [] =
     (Inr (None, []), [TeamsGetByName ''acme'' ''core'']) \<and>
   ''svc-bot'' \<notin> (set [''alice''] - set ([] :: string list)) \<union>
                 (set ([] :: string list) - set [''alice'']) \<and>
   ''svc-bot'' \<in> set (removedUsernames (snd
       (synchronizeTeam env_quiet ''acme'' ''svc-bot''
          (''core'', \<lparr>members = Some [''alice''], short = None\<rparr>) [])))"
  by (simp add: synchronizeTeam_def Let_def getExistingTeamAndMembers_cases
      createTeamWithNoMembers_def bind_io_def request_def env_quiet_fields
      removedUsernames_def map_filter_simps)

text \<open>
  Claim C3, as the code has it. When the lookup found no team, the first request creates
  the team, and once that has succeeded the next request removes the authenticated
  identity, whether it is a desired member or not; the desired members are added after
  that, so when no request fails GitHub ends with exactly the desired members in the team
  (a desired creator is removed and added again). When the lookup found the team, no team
  is created and only stale members, those of \<open>current - desired\<close>, are removed.
\<close>

theorem creator_removed_on_creation_only:
  assumes lookup:
      "getExistingTeamAndMembers env org (slugify env teamName) tr0 = (Inr (existingTeam, current), tr1)"
    and run:
      "synchronizeTeam env org login (teamName, \<lparr>members = Some desired, short = sh\<rparr>) tr0 = (res, tr2)"
  shows "\<exists>cs. tr2 = tr1 @ cs \<and>
     (case existingTeam of
        None \<Rightarrow>
          cs \<noteq> [] \<and> hd cs = TeamsCreate org teamName \<and>
          (mutate env (tr1 @ [TeamsCreate org teamName]) = Inr () \<longrightarrow>
             take 2 cs = [TeamsCreate org teamName,
                          TeamsRemoveMembershipInOrg org (slugify env teamName) login]) \<and>
          (res = Inr () \<longrightarrow>
             cs = TeamsCreate org teamName #
                  TeamsRemoveMembershipInOrg org (slugify env teamName) login #
                  map (TeamsAddOrUpdateMembershipInOrg org (slugify env teamName)) desired \<and>
             (\<forall>teams. teams (slugify env teamName) = None \<longrightarrow>
                github_replay (slugify env) login cs teams (slugify env teamName) = Some (set desired)))
      | Some t \<Rightarrow>
          TeamsCreate org teamName \<notin> set cs \<and>
          set (removedUsernames cs) \<subseteq> set current - set desired)"
proof (cases existingTeam)
  case None
  let ?slug = "slugify env teamName"
  let ?all = "TeamsCreate org teamName # TeamsRemoveMembershipInOrg org ?slug login #
              map (TeamsAddOrUpdateMembershipInOrg org ?slug) desired"
  from synchronizeTeam_create [OF lookup [unfolded None] run] obtain cs where
    cs: "tr2 = tr1 @ cs" "cs \<noteq> []" "prefix cs ?all"
        "mutate env (tr1 @ [TeamsCreate org teamName]) = Inr () \<longrightarrow>
           take 2 cs = [TeamsCreate org teamName, TeamsRemoveMembershipInOrg org ?slug login]"
        "res = Inr () \<longrightarrow> cs = ?all"
    by blast
  from cs(2,3) have first: "hd cs = TeamsCreate org teamName"
    by (cases cs) (auto simp: prefix_def)
  have final: "res = Inr () \<longrightarrow> cs = ?all \<and>
      (\<forall>teams. teams ?slug = None \<longrightarrow>
         github_replay (slugify env) login cs teams ?slug = Some (set desired))"
    using cs(5) github_replay_creation [of _ "slugify env" teamName login org desired]
    by simp
  from cs(1,2,4) first final None show ?thesis
    by auto
next
  case (Some t)
  let ?slug = "slugify env teamName"
  let ?rs = "map (TeamsRemoveMembershipInOrg org ?slug) (filter (\<lambda>u. u \<notin> set desired) current)"
  let ?as = "map (TeamsAddOrUpdateMembershipInOrg org ?slug) (filter (\<lambda>u. u \<notin> set current) desired)"
  from synchronizeTeam_update [OF lookup [unfolded Some] run] obtain cs where
    cs: "tr2 = tr1 @ cs" "prefix cs (?rs @ ?as)"
    by blast
  have "TeamsCreate org teamName \<notin> set (?rs @ ?as)"
    by auto
  with set_mono_prefix [OF cs(2)] have no_create: "TeamsCreate org teamName \<notin> set cs"
    by blast
  have "removedUsernames (?rs @ ?as) = filter (\<lambda>u. u \<notin> set desired) current"
    by (simp add: removedUsernames_append removedUsernames_adds removedUsernames_removes)
  with removedUsernames_prefix [OF cs(2)]
  have "set (removedUsernames cs) \<subseteq> set current - set desired"
    by auto
  with cs(1) no_create Some show ?thesis
    by auto
qed

text \<open>
  The scenario of the spec: no team, desired \<open>alice\<close>, created by \<open>svc-bot\<close>; the team
  ends with \<open>alice\<close> alone.
\<close>

theorem creator_removed_on_creation_only_witness:
  "getExistingTeamAndMembers env_quiet ''acme'' (slugify env_quiet ''core'') [] =
     (Inr (None, []), [TeamsGetByName ''acme'' ''core'']) \<and>
   synchronizeTeam env_quiet ''acme'' ''svc-bot''
       (''core'', \<lparr>members = Some [''alice''], short = None\<rparr>) [] =
     (Inr (),
      [TeamsGetByName ''acme'' ''core'', TeamsCreate ''acme'' ''core'',
       TeamsRemoveMembershipInOrg ''acme'' ''core'' ''svc-bot'',
       TeamsAddOrUpdateMembershipInOrg ''acme'' ''core'' ''alice'']) \<and>
   github_replay (slugify env_quiet) ''svc-bot''
       [TeamsCreate ''acme'' ''core'',
        TeamsRemoveMembershipInOrg ''acme'' ''core'' ''svc-bot'',
        TeamsAddOrUpdateMembershipInOrg ''acme'' ''core'' ''alice'']
       Map.empty ''core'' = Some {''alice''}"
proof -
  have lookup:
    "getExistingTeamAndMembers env_quiet ''acme'' (slugify env_quiet ''core'') [] =
       (Inr (None, []), [TeamsGetByName ''acme'' ''core''])"
    by (simp add: getExistingTeamAndMembers_cases env_quiet_fields)
  have run:
    "synchronizeTeam env_quiet ''acme'' ''svc-bot''
         (''core'', \<lparr>members = Some [''alice''], short = None\<rparr>) [] =
       (Inr (),
        [TeamsGetByName ''acme'' ''core'', TeamsCreate ''acme'' ''core'',
         TeamsRemoveMembershipInOrg ''acme'' ''core'' ''svc-bot'',
         TeamsAddOrUpdateMembershipInOrg ''acme'' ''core'' ''alice''])"
    by (simp add: synchronizeTeam_unfold [OF lookup] createTeamWithNoMembers_def bind_io_def
        request_def env_quiet_fields)
  from creator_removed_on_creation_only [OF lookup run] obtain cs where
    "[TeamsGetByName ''acme'' ''core'', TeamsCreate ''acme'' ''core'',
      TeamsRemoveMembershipInOrg ''acme'' ''core'' ''svc-bot'',
      TeamsAddOrUpdateMembershipInOrg ''acme'' ''core'' ''alice''] =
     [TeamsGetByName ''acme'' ''core''] @ cs"
    "\<forall>teams. teams (slugify env_quiet ''core'') = None \<longrightarrow>
       github_replay (slugify env_quiet) ''svc-bot'' cs teams (slugify env_quiet ''core'') =
         Some (set [''alice''])"
    by auto
  then have "github_replay (slugify env_quiet) ''svc-bot''
       [TeamsCreate ''acme'' ''core'',
        TeamsRemoveMembershipInOrg ''acme'' ''core'' ''svc-bot'',
        TeamsAddOrUpdateMembershipInOrg ''acme'' ''core'' ''alice'']
       Map.empty ''core'' = Some {''alice''}"
    by (auto simp: env_quiet_fields)
  with lookup run show ?thesis
    by simp
qed

text \<open>
  Claim C3 as the spec states it fails where the creator is a desired member: the
  removal is sent all the same, and the creator is added again after it.
\<close>

theorem desired_creator_removed_counterexample:
  "synchronizeTeam env_quiet ''acme'' ''svc-bot''
       (''core'', \<lparr>members = Some [''svc-bot''], short = None\<rparr>) [] =
     (Inr (),
      [TeamsGetByName ''acme'' ''core'', TeamsCreate ''acme'' ''core'',
       TeamsRemoveMembershipInOrg ''acme'' ''core'' ''svc-bot'',
       TeamsAddOrUpdateMembershipInOrg ''acme'' ''core'' ''svc-bot''])"
  by (simp add: synchronizeTeam_def Let_def getExistingTeamAndMembers_cases
      createTeamWithNoMembers_def bind_io_def request_def env_quiet_fields)

text \<open>
  The lookup of a team never throws: it returns the team and its members when both
  requests succeed, and no team and no members when either request fails, whatever the
  failure is.
\<close>

lemma getExistingTeamAndMembers_never_throws:
  "\<exists>existingTeam existingMembers tr'.
     getExistingTeamAndMembers env org teamSlug tr = (Inr (existingTeam, existingMembers), tr') \<and>
     (case existingTeam of
        Some t \<Rightarrow>
          teams_getByName env (tr @ [TeamsGetByName org teamSlug]) = Inr t \<and>
          teams_listMembersInOrg env
            (tr @ [TeamsGetByName org teamSlug, TeamsListMembersInOrg org teamSlug]) =
            Inr existingMembers
      | None \<Rightarrow>
          existingMembers = [] \<and>
          ((\<exists>e. teams_getByName env (tr @ [TeamsGetByName org teamSlug]) = Inl e) \<or>
           (\<exists>e. teams_listMembersInOrg env
                  (tr @ [TeamsGetByName org teamSlug, TeamsListMembersInOrg org teamSlug]) = Inl e)))"
  by (auto simp: getExistingTeamAndMembers_cases split: sum.splits)

text \<open>
  Claim C7 asks that a failure of the lookup other than "not found" ends the run with a
  failure status. Here the lookup of the team is answered by a server error: it is taken
  for "no team", the run goes on to create the team, and ends without a failure status.
  And where the team is found but the list of its members fails, the lookup answers
  "no team" as well.
\<close>

theorem server_error_taken_for_absence:
  "teams_getByName env_outage [UsersGetAuthenticated, ReposGetContents ''input'',
       TeamsGetByName ''acme'' ''core''] = Inl (HttpError 500 ''Internal Server Error'') \<and>
   run_sync env_outage ctx_acme =
     (Success,
      [UsersGetAuthenticated, ReposGetContents ''input'', TeamsGetByName ''acme'' ''core'',
       TeamsCreate ''acme'' ''core'',
       TeamsRemoveMembershipInOrg ''acme'' ''core'' ''svc-bot'',
       TeamsAddOrUpdateMembershipInOrg ''acme'' ''core'' ''alice'']) \<and>
   getExistingTeamAndMembers env_unlisted ''acme'' ''core'' [] =
     (Inr (None, []), [TeamsGetByName ''acme'' ''core'', TeamsListMembersInOrg ''acme'' ''core''])"
  by (simp add: run_sync_def try_catch_def getTeamData_def fetchContent_def synchronizeTeam_def
      Let_def getExistingTeamAndMembers_cases createTeamWithNoMembers_def bind_io_def lift_io_def
      request_def env_outage_def env_unlisted_def env_quiet_def ctx_acme_def)

section \<open>Properties of the labeler\<close>

lemma getTeamLabel_loop_filter:
  "getTeamLabel_loop cfg author labels =
     labels @ map fst (filter (\<lambda>(label, authors). author \<in> set authors) cfg)"
  by (induction cfg author labels rule: getTeamLabel_loop.induct) simp_all

lemma getTeamLabel_filter:
  "getTeamLabel cfg author = map fst (filter (\<lambda>(label, authors). author \<in> set authors) cfg)"
  by (simp add: getTeamLabel_def getTeamLabel_loop_filter)

lemma checkGlobs_strings:
  "checkGlobs mm files (map YString patterns) = Inr (\<exists>p \<in> set patterns. \<exists>f \<in> set files. mm p f)"
  by (induction patterns) (auto simp: new_Minimatch_def list_ex_iff)

lemma checkGlobs_error:
  "checkGlobs mm files globs = Inl e \<Longrightarrow> e = TypeError ''glob pattern string required''"
  by (induction globs) (auto simp: new_Minimatch_def split: yaml.splits if_splits)

lemma checkGlobs_set:
  "set files = set files' \<Longrightarrow> checkGlobs mm files globs = checkGlobs mm files' globs"
  by (induction globs) (auto simp: list_ex_iff split: sum.splits)

lemma globLabels_set:
  "set files = set files' \<Longrightarrow> globLabels mm files rules labels = globLabels mm files' rules labels"
proof (induction rules arbitrary: labels)
  case Nil
  show ?case by simp
next
  case (Cons rule rules)
  obtain label globs where rule: "rule = (label, globs)" by (cases rule)
  from Cons.prems have "checkGlobs mm files globs = checkGlobs mm files' globs"
    by (rule checkGlobs_set)
  with Cons.IH [OF Cons.prems] rule show ?case
    by (simp split: sum.splits)
qed

text \<open>
  The loop fails when some rule holds a pattern that is not a string and no earlier pattern
  of that rule matched; otherwise it appends the labels of the rules that match, in order.
\<close>

lemma globLabels_result:
  "globLabels mm files rules labels =
     (if \<exists>(label, globs) \<in> set rules. checkGlobs mm files globs \<noteq> Inr True \<and>
           checkGlobs mm files globs \<noteq> Inr False
      then Inl (TypeError ''glob pattern string required'')
      else Inr (labels @ map fst (filter (\<lambda>(label, globs). checkGlobs mm files globs = Inr True) rules)))"
proof (induction rules arbitrary: labels)
  case Nil
  show ?case by simp
next
  case (Cons rule rules)
  obtain label globs where rule: "rule = (label, globs)" by (cases rule)
  show ?case
  proof (cases "checkGlobs mm files globs")
    case (Inl e)
    with checkGlobs_error [OF Inl] rule show ?thesis by simp
  next
    case (Inr matched)
    with rule Cons.IH show ?thesis by (cases matched) auto
  qed
qed

lemma globLabels_strings:
  "globLabels mm files (labelRules rules) [] =
     Inr (map fst (filter (\<lambda>(label, patterns). \<exists>p \<in> set patterns. \<exists>f \<in> set files. mm p f) rules))"
proof -
  have "filter (\<lambda>(label, globs). checkGlobs mm files globs = Inr True) (labelRules rules) =
        labelRules (filter (\<lambda>(label, patterns). \<exists>p \<in> set patterns. \<exists>f \<in> set files. mm p f) rules)"
    unfolding labelRules_def filter_map
    by (rule arg_cong [where f = "map _"], rule filter_cong)
      (simp_all add: checkGlobs_strings split_beta)
  moreover have "map fst (labelRules rs) = map fst rs" for rs
    unfolding labelRules_def by (induction rs) auto
  moreover have "\<not> (\<exists>(label, globs) \<in> set (labelRules rules).
      checkGlobs mm files globs \<noteq> Inr True \<and> checkGlobs mm files globs \<noteq> Inr False)"
    unfolding labelRules_def by (auto simp: checkGlobs_strings)
  ultimately show ?thesis
    by (simp add: globLabels_result)
qed

text \<open>
  Claim C2. For every list of changed files and every list of rules with string patterns,
  the loop over the rules returns the labels of exactly the rules of which some pattern
  matches some changed file, the matcher being applied to the whole path; so a label is
  in the result if and only if a rule with that label has such a pattern and file, and,
  the labels of the rules being distinct as the keys of a \<open>Map\<close> are, a rule's label is
  in the result if and only if that rule has one. One pattern and one file are enough.
\<close>

theorem classify_any_pattern_any_file:
  "\<exists>labels. globLabels mm changedFiles (labelRules rules) [] = Inr labels \<and>
     labels = map fst (filter (\<lambda>(label, patterns).
                 \<exists>p \<in> set patterns. \<exists>f \<in> set changedFiles. mm p f) rules) \<and>
     (\<forall>l. l \<in> set labels \<longleftrightarrow>
          (\<exists>patterns. (l, patterns) \<in> set rules \<and>
             (\<exists>p \<in> set patterns. \<exists>f \<in> set changedFiles. mm p f))) \<and>
     (distinct (map fst rules) \<longrightarrow>
        (\<forall>(label, patterns) \<in> set rules.
           label \<in> set labels \<longleftrightarrow> (\<exists>p \<in> set patterns. \<exists>f \<in> set changedFiles. mm p f)))"
proof -
  let ?hit = "\<lambda>patterns. \<exists>p \<in> set patterns. \<exists>f \<in> set changedFiles. mm p f"
  let ?labels = "map fst (filter (\<lambda>(label, patterns). ?hit patterns) rules)"
  have run: "globLabels mm changedFiles (labelRules rules) [] = Inr ?labels"
    by (rule globLabels_strings)
  have mem: "l \<in> set ?labels \<longleftrightarrow> (\<exists>patterns. (l, patterns) \<in> set rules \<and> ?hit patterns)" for l
    by force
  have per_rule: "label \<in> set ?labels \<longleftrightarrow> ?hit patterns"
    if d: "distinct (map fst rules)" and r: "(label, patterns) \<in> set rules" for label patterns
  proof
    assume "label \<in> set ?labels"
    then obtain patterns' where p': "(label, patterns') \<in> set rules" "?hit patterns'"
      unfolding mem by blast
    from d r p'(1) have "patterns' = patterns"
      by (meson eq_key_imp_eq_value)
    with p'(2) show "?hit patterns" by simp
  next
    assume "?hit patterns"
    with r show "label \<in> set ?labels" unfolding mem by blast
  qed
  from run mem per_rule show ?thesis
    by blast
qed

text \<open>
  The scenario of the spec: the rules \<open>docs: docs/**\<close> and \<open>build: [*.yml, *.yaml]\<close>
  with the changed files \<open>docs/readme.md\<close> and \<open>action.yml\<close> give both labels.
\<close>

theorem classify_any_pattern_any_file_witness:
  "getLabelGlobMapFromObject
     (Some [(''docs'', YString ''docs/**''),
            (''build'', YArray [YString ''*.yml'', YString ''*.yaml''])]) =
     Inr (labelRules [(''docs'', [''docs/**'']), (''build'', [''*.yml'', ''*.yaml''])]) \<and>
   distinct (map fst [(''docs'', [''docs/**'']), (''build'', [''*.yml'', ''*.yaml''])]) \<and>
   globLabels glob_match [''docs/readme.md'', ''action.yml'']
     (labelRules [(''docs'', [''docs/**'']), (''build'', [''*.yml'', ''*.yaml''])]) [] =
     Inr [''docs'', ''build'']"
  using classify_any_pattern_any_file
    [of glob_match "[''docs/readme.md'', ''action.yml'']"
        "[(''docs'', [''docs/**'']), (''build'', [''*.yml'', ''*.yaml''])]"]
  by (simp add: getLabelGlobMapFromObject_def labelRules_def)

text \<open>
  Claim C9. The result of the loop over the rules is the same set of labels for every
  order of the rules and every order of the changed files; where a pattern that is not a
  string makes it fail, it fails for every order.
\<close>

theorem classify_order_irrelevant:
  assumes files: "mset changedFiles' = mset changedFiles"
    and rules: "mset rules' = mset rules"
  shows "(case globLabels mm changedFiles' rules' [] of
            Inl e \<Rightarrow> globLabels mm changedFiles rules [] = Inl e
          | Inr labels' \<Rightarrow>
              (\<exists>labels. globLabels mm changedFiles rules [] = Inr labels \<and> set labels = set labels'))"
proof -
  from files have "set changedFiles' = set changedFiles"
    by (rule mset_eq_setD)
  then have same_files: "globLabels mm changedFiles' rules' [] = globLabels mm changedFiles rules' []"
    by (rule globLabels_set)
  from rules have same_rules: "set rules' = set rules"
    by (rule mset_eq_setD)
  show ?thesis
    unfolding same_files
    by (simp add: globLabels_result same_rules)
qed

theorem classify_order_irrelevant_witness:
  "mset [''action.yml'', ''docs/readme.md''] = mset [''docs/readme.md'', ''action.yml''] \<and>
   mset (labelRules [(''build'', [''*.yml'', ''*.yaml'']), (''docs'', [''docs/**''])]) =
     mset (labelRules [(''docs'', [''docs/**'']), (''build'', [''*.yml'', ''*.yaml''])]) \<and>
   globLabels glob_match [''action.yml'', ''docs/readme.md'']
     (labelRules [(''build'', [''*.yml'', ''*.yaml'']), (''docs'', [''docs/**''])]) [] =
     Inr [''build'', ''docs''] \<and>
   (\<exists>labels. globLabels glob_match [''docs/readme.md'', ''action.yml'']
        (labelRules [(''docs'', [''docs/**'']), (''build'', [''*.yml'', ''*.yaml''])]) [] = Inr labels \<and>
      set labels = set [''build'', ''docs''])"
proof -
  have files: "mset [''action.yml'', ''docs/readme.md''] = mset [''docs/readme.md'', ''action.yml'']"
    by simp
  have rules: "mset (labelRules [(''build'', [''*.yml'', ''*.yaml'']), (''docs'', [''docs/**''])]) =
     mset (labelRules [(''docs'', [''docs/**'']), (''build'', [''*.yml'', ''*.yaml''])])"
    by (simp add: labelRules_def)
  have run: "globLabels glob_match [''action.yml'', ''docs/readme.md'']
     (labelRules [(''build'', [''*.yml'', ''*.yaml'']), (''docs'', [''docs/**''])]) [] =
     Inr [''build'', ''docs'']"
    by (simp add: labelRules_def new_Minimatch_def)
  from classify_order_irrelevant [OF files rules, of glob_match] files rules run show ?thesis
    by simp
qed

text \<open>
  The requests of the last part of \<open>run\<close>: a run sends them in this order and stops
  at the first that fails.
\<close>

lemma labelPullRequest_fails:
  "globLabels (minimatch env) changedFiles labelGlobs [] = Inl e \<Longrightarrow>
   labelPullRequest env ctx prNumber changedFiles labelGlobs teamLabelsToMembers tr = (Inl e, tr)"
  by (simp add: labelPullRequest_def bind_io_def lift_io_def)

lemma labelPullRequest_trace:
  assumes globs: "globLabels (minimatch env) changedFiles labelGlobs [] = Inr globbed"
    and run: "labelPullRequest env ctx prNumber changedFiles labelGlobs teamLabelsToMembers tr = (res, tr')"
    and team: "team = getTeamLabel teamLabelsToMembers (getPrAuthor ctx)"
    and plan: "plan =
      (if team = [] then [] else [PullsUpdate prNumber Closed]) @
      (if globbed @ team = [] then []
       else [IssuesAddLabels prNumber (map (filter (\<lambda>c. c \<noteq> CHR ''#'')) (globbed @ team))]) @
      (if team = [] then [] else [PullsUpdate prNumber Open])"
  shows "\<exists>cs. tr' = tr @ cs \<and> prefix cs plan \<and> (plan \<noteq> [] \<longrightarrow> cs \<noteq> []) \<and>
              (res = Inr () \<longrightarrow> cs = plan)"
proof -
  let ?cs = "drop (length tr) tr'"
  from run have "tr' = tr @ ?cs \<and> prefix ?cs plan \<and> (plan \<noteq> [] \<longrightarrow> ?cs \<noteq> []) \<and>
              (res = Inr () \<longrightarrow> ?cs = plan)"
    unfolding plan team
    by (auto simp: labelPullRequest_def globs bind_io_def lift_io_def return_io_def request_def
        addLabels_def Let_def split: sum.splits if_splits)
  then show ?thesis by blast
qed

lemma labelsApplied_append:
  "labelsApplied (xs @ ys) = labelsApplied xs @ labelsApplied ys"
  by (simp add: labelsApplied_def map_filter_def)

lemma labelsApplied_plan:
  "labelsApplied
     ((if team = [] then [] else [PullsUpdate prNumber Closed]) @
      (if labels = [] then [] else [IssuesAddLabels prNumber applied]) @
      (if team = [] then [] else [PullsUpdate prNumber Open])) =
   (if labels = [] then [] else [applied])"
  by (simp add: labelsApplied_def map_filter_simps)

lemma labelsApplied_prefix:
  "prefix cs ds \<Longrightarrow> prefix (labelsApplied cs) (labelsApplied ds)"
  by (auto simp: prefix_def labelsApplied_append)

text \<open>
  Claim C4. In the last part of \<open>run\<close>, with \<open>globbed\<close> the labels of the glob rules:
  the pull request is closed, which starts the cycle of closing and reopening, if and only
  if the author has a team label; without a team label no request changes the state of
  the pull request, whatever the glob labels are; when there is no label at all nothing is
  sent, so no labels are applied; and the requests are sent in the order close, apply
  labels, reopen, each only if the one before it succeeded, all of the due ones when the
  run succeeds.
\<close>

theorem reopen_cycle_iff_team_labels:
  assumes globs: "globLabels (minimatch env) changedFiles labelGlobs [] = Inr globbed"
    and run: "labelPullRequest env ctx prNumber changedFiles labelGlobs teamLabelsToMembers tr = (res, tr')"
    and team: "team = getTeamLabel teamLabelsToMembers (getPrAuthor ctx)"
  shows "\<exists>cs. tr' = tr @ cs \<and>
     (PullsUpdate prNumber Closed \<in> set cs \<longleftrightarrow> team \<noteq> []) \<and>
     (team = [] \<longrightarrow> (\<forall>st. PullsUpdate prNumber st \<notin> set cs)) \<and>
     (globbed @ team = [] \<longrightarrow> cs = []) \<and>
     prefix cs
       ((if team = [] then [] else [PullsUpdate prNumber Closed]) @
        (if globbed @ team = [] then []
         else [IssuesAddLabels prNumber (map (filter (\<lambda>c. c \<noteq> CHR ''#'')) (globbed @ team))]) @
        (if team = [] then [] else [PullsUpdate prNumber Open])) \<and>
     (res = Inr () \<longrightarrow> cs =
        (if team = [] then [] else [PullsUpdate prNumber Closed]) @
        (if globbed @ team = [] then []
         else [IssuesAddLabels prNumber (map (filter (\<lambda>c. c \<noteq> CHR ''#'')) (globbed @ team))]) @
        (if team = [] then [] else [PullsUpdate prNumber Open]))"
proof -
  let ?plan = "(if team = [] then [] else [PullsUpdate prNumber Closed]) @
        (if globbed @ team = [] then []
         else [IssuesAddLabels prNumber (map (filter (\<lambda>c. c \<noteq> CHR ''#'')) (globbed @ team))]) @
        (if team = [] then [] else [PullsUpdate prNumber Open])"
  from labelPullRequest_trace [OF globs run team refl] obtain cs where
    cs: "tr' = tr @ cs" "prefix cs ?plan" "?plan \<noteq> [] \<longrightarrow> cs \<noteq> []" "res = Inr () \<longrightarrow> cs = ?plan"
    by blast
  have closed: "PullsUpdate prNumber Closed \<in> set cs \<longleftrightarrow> team \<noteq> []"
  proof
    assume "PullsUpdate prNumber Closed \<in> set cs"
    with set_mono_prefix [OF cs(2)] have "PullsUpdate prNumber Closed \<in> set ?plan"
      by blast
    then show "team \<noteq> []"
      by (cases "team = []") (simp_all split: if_splits)
  next
    assume t: "team \<noteq> []"
    with cs(3) have "cs \<noteq> []" by simp
    then obtain c cs' where c: "cs = c # cs'" by (cases cs) auto
    with cs(2) t have "c = PullsUpdate prNumber Closed"
      by simp
    with c show "PullsUpdate prNumber Closed \<in> set cs" by simp
  qed
  have unchanged: "team = [] \<longrightarrow> (\<forall>st. PullsUpdate prNumber st \<notin> set cs)"
  proof (intro impI allI)
    fix st assume t: "team = []"
    show "PullsUpdate prNumber st \<notin> set cs"
    proof
      assume "PullsUpdate prNumber st \<in> set cs"
      with set_mono_prefix [OF cs(2)] have "PullsUpdate prNumber st \<in> set ?plan"
        by blast
      with t show False by (simp split: if_splits)
    qed
  qed
  have none_sent: "globbed @ team = [] \<longrightarrow> cs = []"
  proof
    assume "globbed @ team = []"
    with cs(2) show "cs = []" by simp
  qed
  show ?thesis
    by (intro exI [of _ cs] conjI) (fact cs(1) cs(2) cs(4) closed unchanged none_sent)+
qed

text \<open>
  The scenario of the spec: \<open>dave\<close> is in the team of the label \<open>infra\<close>; the pull
  request is closed, labelled and reopened.
\<close>

theorem reopen_cycle_iff_team_labels_witness:
  "globLabels (minimatch env_quiet) [] [] [] = Inr [] \<and>
   getTeamLabel [(''infra'', [''dave''])] (getPrAuthor ctx_dave) = [''infra''] \<and>
   labelPullRequest env_quiet ctx_dave 7 [] [] [(''infra'', [''dave''])] [] =
     (Inr (), [PullsUpdate 7 Closed, IssuesAddLabels 7 [''infra''], PullsUpdate 7 Open])"
proof -
  have globs: "globLabels (minimatch env_quiet) [] [] [] = Inr []"
    by simp
  have team: "[''infra''] = getTeamLabel [(''infra'', [''dave''])] (getPrAuthor ctx_dave)"
    by (simp add: getTeamLabel_def getPrAuthor_def ctx_dave_def)
  obtain res tr' where run:
    "labelPullRequest env_quiet ctx_dave 7 [] [] [(''infra'', [''dave''])] [] = (res, tr')"
    by (cases "labelPullRequest env_quiet ctx_dave 7 [] [] [(''infra'', [''dave''])] []")
  have "res = Inr ()"
    using run
    by (auto simp: labelPullRequest_def bind_io_def lift_io_def request_def addLabels_def
        Let_def team [symmetric] env_quiet_fields)
  with reopen_cycle_iff_team_labels [OF globs run team] have "tr' =
      [PullsUpdate 7 Closed, IssuesAddLabels 7 [''infra''], PullsUpdate 7 Open]"
    by auto
  with globs team run \<open>res = Inr ()\<close> show ?thesis
    by simp
qed

text \<open>
  Claim C5, as the code has it. The labels of an apply-labels request are the glob
  labels, in the order of the rules, followed by the team labels, each label without its
  \<open>#\<close> characters: as a set, the union of the two, but a label that is both a glob label
  and a team label is there twice. At most one such request is sent, and exactly one when
  the run succeeds with some label.
\<close>

theorem applied_labels_globbed_then_team:
  assumes globs: "globLabels (minimatch env) changedFiles labelGlobs [] = Inr globbed"
    and run: "labelPullRequest env ctx prNumber changedFiles labelGlobs teamLabelsToMembers tr = (res, tr')"
    and team: "team = getTeamLabel teamLabelsToMembers (getPrAuthor ctx)"
  shows "\<exists>cs. tr' = tr @ cs \<and>
     (labelsApplied cs = [] \<or>
      labelsApplied cs = [map (filter (\<lambda>c. c \<noteq> CHR ''#'')) (globbed @ team)]) \<and>
     (res = Inr () \<and> globbed @ team \<noteq> [] \<longrightarrow>
        labelsApplied cs = [map (filter (\<lambda>c. c \<noteq> CHR ''#'')) (globbed @ team)]) \<and>
     (\<forall>ls \<in> set (labelsApplied cs).
        set ls = filter (\<lambda>c. c \<noteq> CHR ''#'') ` (set globbed \<union> set team) \<and>
        (\<forall>l. count_list ls (filter (\<lambda>c. c \<noteq> CHR ''#'') l) \<ge> count_list globbed l + count_list team l))"
proof -
  let ?strip = "filter (\<lambda>c. c \<noteq> CHR ''#'')"
  let ?applied = "map ?strip (globbed @ team)"
  let ?plan = "(if team = [] then [] else [PullsUpdate prNumber Closed]) @
        (if globbed @ team = [] then [] else [IssuesAddLabels prNumber ?applied]) @
        (if team = [] then [] else [PullsUpdate prNumber Open])"
  from labelPullRequest_trace [OF globs run team refl] obtain cs where
    cs: "tr' = tr @ cs" "prefix cs ?plan" "res = Inr () \<longrightarrow> cs = ?plan"
    by blast
  have plan: "labelsApplied ?plan = (if globbed @ team = [] then [] else [?applied])"
    by (rule labelsApplied_plan)
  from labelsApplied_prefix [OF cs(2)] have pre:
    "prefix (labelsApplied cs) (if globbed @ team = [] then [] else [?applied])"
    unfolding plan .
  then have one: "labelsApplied cs = [] \<or> labelsApplied cs = [?applied]"
    by (cases "labelsApplied cs") (auto split: if_splits)
  have all: "res = Inr () \<and> globbed @ team \<noteq> [] \<longrightarrow> labelsApplied cs = [?applied]"
    using cs(3) plan by auto
  have count: "count_list (map ?strip xs) (?strip l) \<ge> count_list xs l" for xs l
    by (induction xs) auto
  have content: "\<forall>ls \<in> set (labelsApplied cs).
        set ls = ?strip ` (set globbed \<union> set team) \<and>
        (\<forall>l. count_list ls (?strip l) \<ge> count_list globbed l + count_list team l)"
  proof
    fix ls assume "ls \<in> set (labelsApplied cs)"
    with one have ls: "ls = ?applied" by auto
    have "count_list ?applied (?strip l) \<ge> count_list globbed l + count_list team l" for l
      using count [of "globbed @ team" l] by simp
    with ls show "set ls = ?strip ` (set globbed \<union> set team) \<and>
        (\<forall>l. count_list ls (?strip l) \<ge> count_list globbed l + count_list team l)"
      by auto
  qed
  show ?thesis
    by (intro exI [of _ cs] conjI) (fact cs(1) one all content)+
qed

theorem applied_labels_globbed_then_team_witness:
  "globLabels (minimatch env_quiet) [''main.tf''] (labelRules [(''infra'', [''*.tf''])]) [] =
     Inr [''infra''] \<and>
   labelPullRequest env_quiet ctx_dave 7 [''main.tf''] (labelRules [(''infra'', [''*.tf''])])
       [(''infra'', [''dave''])] [] =
     (Inr (), [PullsUpdate 7 Closed, IssuesAddLabels 7 [''infra'', ''infra''], PullsUpdate 7 Open]) \<and>
   labelsApplied [PullsUpdate 7 Closed, IssuesAddLabels 7 [''infra'', ''infra''], PullsUpdate 7 Open] =
     [map (filter (\<lambda>c. c \<noteq> CHR ''#'')) ([''infra''] @ [''infra''])]"
proof -
  have globs: "globLabels (minimatch env_quiet) [''main.tf''] (labelRules [(''infra'', [''*.tf''])]) [] =
     Inr [''infra'']"
    by (simp add: labelRules_def new_Minimatch_def env_quiet_fields)
  have team: "[''infra''] = getTeamLabel [(''infra'', [''dave''])] (getPrAuthor ctx_dave)"
    by (simp add: getTeamLabel_def getPrAuthor_def ctx_dave_def)
  have run: "labelPullRequest env_quiet ctx_dave 7 [''main.tf''] (labelRules [(''infra'', [''*.tf''])])
       [(''infra'', [''dave''])] [] =
     (Inr (), [PullsUpdate 7 Closed, IssuesAddLabels 7 [''infra'', ''infra''], PullsUpdate 7 Open])"
    by (simp add: labelPullRequest_def globs [unfolded env_quiet_fields] bind_io_def lift_io_def
        request_def addLabels_def Let_def team [symmetric] env_quiet_fields)
  from applied_labels_globbed_then_team [OF globs run team] show ?thesis
    using globs run by auto
qed

lemma env_overlap_fields:
  "core_getInput env_overlap = (\<lambda>name required. Inr ''input'')"
  "yaml_safeLoad env_overlap = (\<lambda>content.
           Inr \<lparr> file_pattern_labels = Some [(''infra'', YString ''*.tf'')],
                 team_labels = Some [(''infra'', [''dave''])],
                 teams_configuration_location = None \<rparr>)"
  "repos_getContents env_overlap = (\<lambda>tr. Inr '''')"
  "pulls_listFiles env_overlap = (\<lambda>tr. Inr [''main.tf''])"
  "minimatch env_overlap = glob_match"
  "mutate env_overlap = (\<lambda>tr. Inr ())"
  by (simp_all add: env_overlap_def env_quiet_def)

lemma ctx_dave_fields:
  "getPrNumber ctx_dave = Some 7"
  "getPrAuthor ctx_dave = ''dave''"
  by (simp_all add: getPrNumber_def getPrAuthor_def ctx_dave_def)

text \<open>
  Claim C5 as the spec states it fails where a label is both glob-matched and
  team-derived: the apply-labels request of the run carries it twice.
\<close>

theorem duplicate_label_applied_counterexample:
  "run_labeler env_overlap ctx_dave =
     (Success,
      [ReposGetContents ''input'', PullsListFiles 7, PullsUpdate 7 Closed,
       IssuesAddLabels 7 [''infra'', ''infra''], PullsUpdate 7 Open])"
  by (simp add: run_labeler_def try_catch_def getConfigurationContents_def
      fetchContent_def getChangedFiles_def getLabelGlobs_def getLabelGlobMapFromObject_def
      getTeamLabelsToMembers_def new_Map_def labelPullRequest_def new_Minimatch_def
      getTeamLabel_def addLabels_def bind_io_def lift_io_def return_io_def
      request_def Let_def env_overlap_fields ctx_dave_fields)

lemma labelPullRequest_applied:
  assumes globs: "globLabels (minimatch env) changedFiles labelGlobs [] = Inr globbed"
    and run: "labelPullRequest env ctx prNumber changedFiles labelGlobs teamLabelsToMembers tr = (res, tr')"
    and team: "team = getTeamLabel teamLabelsToMembers (getPrAuthor ctx)"
  shows "\<exists>cs. tr' = tr @ cs \<and>
     (labelsApplied cs = [] \<or>
      labelsApplied cs = [map (filter (\<lambda>c. c \<noteq> CHR ''#'')) (globbed @ team)]) \<and>
     (res = Inr () \<and> globbed @ team \<noteq> [] \<longrightarrow>
        labelsApplied cs = [map (filter (\<lambda>c. c \<noteq> CHR ''#'')) (globbed @ team)])"
proof -
  let ?applied = "map (filter (\<lambda>c. c \<noteq> CHR ''#'')) (globbed @ team)"
  let ?plan = "(if team = [] then [] else [PullsUpdate prNumber Closed]) @
        (if globbed @ team = [] then [] else [IssuesAddLabels prNumber ?applied]) @
        (if team = [] then [] else [PullsUpdate prNumber Open])"
  from labelPullRequest_trace [OF globs run team refl] obtain cs where
    cs: "tr' = tr @ cs" "prefix cs ?plan" "res = Inr () \<longrightarrow> cs = ?plan"
    by blast
  have plan: "labelsApplied ?plan = (if globbed @ team = [] then [] else [?applied])"
    by (rule labelsApplied_plan)
  from labelsApplied_prefix [OF cs(2)] have
    "prefix (labelsApplied cs) (if globbed @ team = [] then [] else [?applied])"
    unfolding plan .
  then have one: "labelsApplied cs = [] \<or> labelsApplied cs = [?applied]"
    by (cases "labelsApplied cs") (auto split: if_splits)
  have all: "res = Inr () \<and> globbed @ team \<noteq> [] \<longrightarrow> labelsApplied cs = [?applied]"
    using cs(3) plan by auto
  show ?thesis
    by (intro exI [of _ cs] conjI) (fact cs(1) one all)+
qed

text \<open>
  Claim C10. The labels of every apply-labels request are the computed labels with every
  \<open>#\<close> removed: no applied label contains \<open>#\<close>, and as soon as a computed label
  contains one, the labels applied are not the labels computed. The request is sent
  whenever the run succeeds with some label.
\<close>

theorem hash_stripped_before_apply:
  assumes globs: "globLabels (minimatch env) changedFiles labelGlobs [] = Inr globbed"
    and run: "labelPullRequest env ctx prNumber changedFiles labelGlobs teamLabelsToMembers tr = (res, tr')"
    and team: "team = getTeamLabel teamLabelsToMembers (getPrAuthor ctx)"
  shows "\<exists>cs. tr' = tr @ cs \<and>
     (\<forall>ls \<in> set (labelsApplied cs).
        ls = map (filter (\<lambda>c. c \<noteq> CHR ''#'')) (globbed @ team) \<and>
        (\<forall>l \<in> set ls. CHR ''#'' \<notin> set l) \<and>
        ((\<exists>l \<in> set (globbed @ team). CHR ''#'' \<in> set l) \<longrightarrow> ls \<noteq> globbed @ team)) \<and>
     (res = Inr () \<and> globbed @ team \<noteq> [] \<longrightarrow> labelsApplied cs \<noteq> [])"
proof -
  let ?applied = "map (filter (\<lambda>c. c \<noteq> CHR ''#'')) (globbed @ team)"
  from labelPullRequest_applied [OF globs run team] obtain cs where
    cs: "tr' = tr @ cs" "labelsApplied cs = [] \<or> labelsApplied cs = [?applied]"
        "res = Inr () \<and> globbed @ team \<noteq> [] \<longrightarrow> labelsApplied cs = [?applied]"
    by blast
  have clean: "\<forall>l \<in> set ?applied. CHR ''#'' \<notin> set l"
    by auto
  have differs: "(\<exists>l \<in> set (globbed @ team). CHR ''#'' \<in> set l) \<longrightarrow> ?applied \<noteq> globbed @ team"
  proof
    assume "\<exists>l \<in> set (globbed @ team). CHR ''#'' \<in> set l"
    then obtain l where l: "l \<in> set (globbed @ team)" "CHR ''#'' \<in> set l"
      by blast
    show "?applied \<noteq> globbed @ team"
    proof
      assume "?applied = globbed @ team"
      with l(1) have "l \<in> set ?applied" by simp
      with clean l(2) show False by blast
    qed
  qed
  have content: "\<forall>ls \<in> set (labelsApplied cs).
        ls = ?applied \<and> (\<forall>l \<in> set ls. CHR ''#'' \<notin> set l) \<and>
        ((\<exists>l \<in> set (globbed @ team). CHR ''#'' \<in> set l) \<longrightarrow> ls \<noteq> globbed @ team)"
  proof
    fix ls assume "ls \<in> set (labelsApplied cs)"
    with cs(2) have "ls = ?applied" by auto
    with clean differs show "ls = ?applied \<and> (\<forall>l \<in> set ls. CHR ''#'' \<notin> set l) \<and>
        ((\<exists>l \<in> set (globbed @ team). CHR ''#'' \<in> set l) \<longrightarrow> ls \<noteq> globbed @ team)"
      by simp
  qed
  have sent: "res = Inr () \<and> globbed @ team \<noteq> [] \<longrightarrow> labelsApplied cs \<noteq> []"
    using cs(3) by simp
  show ?thesis
    by (intro exI [of _ cs] conjI) (fact cs(1) content sent)+
qed

text \<open>The team label \<open>team#1\<close> of \<open>dave\<close> is applied as \<open>team1\<close>.\<close>

theorem hash_stripped_before_apply_witness:
  "globLabels (minimatch env_quiet) [] [] [] = Inr [] \<and>
   getTeamLabel [(''team#1'', [''dave''])] (getPrAuthor ctx_dave) = [''team#1''] \<and>
   labelPullRequest env_quiet ctx_dave 7 [] [] [(''team#1'', [''dave''])] [] =
     (Inr (), [PullsUpdate 7 Closed, IssuesAddLabels 7 [''team1''], PullsUpdate 7 Open]) \<and>
   labelsApplied [PullsUpdate 7 Closed, IssuesAddLabels 7 [''team1''], PullsUpdate 7 Open] =
     [[''team1'']]"
proof -
  have globs: "globLabels (minimatch env_quiet) [] [] [] = Inr []"
    by simp
  have team: "[''team#1''] = getTeamLabel [(''team#1'', [''dave''])] (getPrAuthor ctx_dave)"
    by (simp add: getTeamLabel_def ctx_dave_fields)
  have run: "labelPullRequest env_quiet ctx_dave 7 [] [] [(''team#1'', [''dave''])] [] =
     (Inr (), [PullsUpdate 7 Closed, IssuesAddLabels 7 [''team1''], PullsUpdate 7 Open])"
    by (simp add: labelPullRequest_def bind_io_def lift_io_def request_def addLabels_def
        Let_def team [symmetric] env_quiet_fields)
  from hash_stripped_before_apply [OF globs run team] show ?thesis
    using globs team [symmetric] run by (auto simp: labelsApplied_def map_filter_simps)
qed

lemma run_labeler_without_pull_request:
  assumes "payload_pull_request ctx = None"
  shows "run_labeler env ctx =
     (case core_getInput env ''repo-token'' True of
        Inl e \<Rightarrow> (Failed (message e), [])
      | Inr token \<Rightarrow>
          (case core_getInput env ''configuration-path'' True of
             Inl e \<Rightarrow> (Failed (message e), [])
           | Inr configPath \<Rightarrow> (Success, [])))"
  using assms
  by (simp add: run_labeler_def try_catch_def getPrNumber_def bind_io_def lift_io_def
      return_io_def split: sum.splits)

text \<open>
  Claim C8. When the payload has no pull request, whatever the team map of the
  configuration is, the run resolves and applies no label and sends no request at all:
  it returns at the test of the pull request number, before the author is looked up, so
  the placeholder author of \<open>getPrAuthor\<close> is never used. No error comes of the missing
  pull request: the run ends without a failure whenever its two inputs were supplied, and
  a missing input is the only failure it can end with.
\<close>

theorem no_pull_request_no_labels:
  assumes "payload_pull_request ctx = None"
  shows "snd (run_labeler env ctx) = [] \<and>
     labelsApplied (snd (run_labeler env ctx)) = [] \<and>
     (core_getInput env ''repo-token'' True = Inr token \<and>
      core_getInput env ''configuration-path'' True = Inr configPath \<longrightarrow>
        run_labeler env ctx = (Success, [])) \<and>
     (fst (run_labeler env ctx) = Success \<or>
      (\<exists>e. fst (run_labeler env ctx) = Failed (message e) \<and>
           (core_getInput env ''repo-token'' True = Inl e \<or>
            core_getInput env ''configuration-path'' True = Inl e)))"
proof -
  note run = run_labeler_without_pull_request [OF assms, of env]
  have trace: "snd (run_labeler env ctx) = []"
    unfolding run by (simp split: sum.splits)
  have applied: "labelsApplied (snd (run_labeler env ctx)) = []"
    unfolding trace by (simp add: labelsApplied_def map_filter_simps)
  have supplied: "core_getInput env ''repo-token'' True = Inr token \<and>
      core_getInput env ''configuration-path'' True = Inr configPath \<longrightarrow>
        run_labeler env ctx = (Success, [])"
    unfolding run by simp
  have outcome: "fst (run_labeler env ctx) = Success \<or>
      (\<exists>e. fst (run_labeler env ctx) = Failed (message e) \<and>
           (core_getInput env ''repo-token'' True = Inl e \<or>
            core_getInput env ''configuration-path'' True = Inl e))"
    unfolding run by (auto split: sum.splits)
  show ?thesis
    by (intro conjI) (fact trace applied supplied outcome)+
qed

text \<open>
  No pull request and a team that lists a member called \<open>unknown\<close>: nothing is applied.
\<close>

theorem no_pull_request_no_labels_witness:
  "payload_pull_request ctx_acme = None \<and>
   team_labels (projr (yaml_safeLoad env_unknown '''')) = Some [(''infra'', [''unknown''])] \<and>
   run_labeler env_unknown ctx_acme = (Success, [])"
proof -
  have payload: "payload_pull_request ctx_acme = None"
    by (simp add: ctx_acme_def)
  have inputs: "core_getInput env_unknown ''repo-token'' True = Inr ''input''"
    "core_getInput env_unknown ''configuration-path'' True = Inr ''input''"
    by (simp_all add: env_unknown_def env_quiet_def)
  from no_pull_request_no_labels [OF payload, of env_unknown "''input''" "''input''"] inputs
  have "run_labeler env_unknown ctx_acme = (Success, [])"
    by blast
  with payload show ?thesis
    by (simp add: env_unknown_def env_quiet_def)
qed

text \<open>
  A rule that is neither a string nor an array stops \<open>getLabelGlobMapFromObject\<close> with
  an error that names its label, the first such label of the object; and a run whose
  configuration is refused this way has only read: it fails before any request that
  changes the pull request.
\<close>

lemma getLabelGlobMapFromObject_loop_unexpected:
  assumes "\<forall>(l, w) \<in> set before. (\<exists>s. w = YString s) \<or> (\<exists>gs. w = YArray gs)"
    and "\<not> ((\<exists>s. v = YString s) \<or> (\<exists>gs. v = YArray gs))"
  shows "getLabelGlobMapFromObject_loop (before @ (label, v) # rest) labelGlobs =
     Inl (Error (''found unexpected type for label '' @ label @
                 '' (should be string or array of globs)''))"
  using assms
proof (induction before arbitrary: labelGlobs)
  case Nil
  then show ?case by (cases v) simp_all
next
  case (Cons entry before)
  obtain l w where entry: "entry = (l, w)" by (cases entry)
  with Cons.prems(1) have "(\<exists>s. w = YString s) \<or> (\<exists>gs. w = YArray gs)"
    by simp
  moreover from Cons.prems(1)
  have "\<forall>(l, w) \<in> set before. (\<exists>s. w = YString s) \<or> (\<exists>gs. w = YArray gs)"
    by simp
  ultimately show ?case
    using Cons.IH Cons.prems(2) entry by auto
qed

lemma getLabelGlobMapFromObject_unexpected:
  assumes "\<forall>(l, w) \<in> set before. (\<exists>s. w = YString s) \<or> (\<exists>gs. w = YArray gs)"
    and "\<not> ((\<exists>s. v = YString s) \<or> (\<exists>gs. v = YArray gs))"
  shows "getLabelGlobMapFromObject (Some (before @ (label, v) # rest)) =
     Inl (Error (''found unexpected type for label '' @ label @
                 '' (should be string or array of globs)''))"
  using getLabelGlobMapFromObject_loop_unexpected [OF assms]
  by (simp add: getLabelGlobMapFromObject_def)

lemma run_labeler_refused_configuration:
  assumes "core_getInput env ''repo-token'' True = Inr token"
    and "core_getInput env ''configuration-path'' True = Inr configPath"
    and "getPrNumber ctx = Some prNumber" and "prNumber \<noteq> 0"
    and "repos_getContents env [ReposGetContents configPath] = Inr content"
    and "yaml_safeLoad env content = Inr configObject"
    and "pulls_listFiles env [ReposGetContents configPath, PullsListFiles prNumber] = Inr changedFiles"
    and "getLabelGlobs configObject = Inl e"
  shows "run_labeler env ctx =
     (Failed (message e), [ReposGetContents configPath, PullsListFiles prNumber])"
  using assms
  by (simp add: run_labeler_def try_catch_def getConfigurationContents_def fetchContent_def
      getChangedFiles_def bind_io_def lift_io_def request_def)

lemma env_mixed_fields:
  "core_getInput env_mixed = (\<lambda>name required. Inr ''input'')"
  "yaml_safeLoad env_mixed = (\<lambda>content.
           Inr \<lparr> file_pattern_labels = Some [(''x'', YArray [YString ''*.md'', YNumber 5])],
                 team_labels = Some [],
                 teams_configuration_location = None \<rparr>)"
  "repos_getContents env_mixed = (\<lambda>tr. Inr '''')"
  "pulls_listFiles env_mixed = (\<lambda>tr. Inr [''README.md''])"
  "minimatch env_mixed = glob_match"
  "mutate env_mixed = (\<lambda>tr. Inr ())"
  by (simp_all add: env_mixed_def env_quiet_def)

text \<open>
  Claim C6 asks that a rule which is neither a string nor a sequence of strings stops the
  run with an error that names its label. Here the rule of \<open>x\<close> is the array of the
  pattern \<open>*.md\<close> and the number 5: it is stored as it is, the first pattern matches the
  changed file, and the run applies the label \<open>x\<close> and ends without a failure. With the
  number alone the configuration is accepted as well, and it is the matcher's constructor
  that throws later, with a message that does not name the label.
\<close>

theorem array_rule_elements_unchecked:
  "getLabelGlobMapFromObject (Some [(''x'', YArray [YString ''*.md'', YNumber 5])]) =
     Inr [(''x'', [YString ''*.md'', YNumber 5])] \<and>
   run_labeler env_mixed ctx_dave =
     (Success, [ReposGetContents ''input'', PullsListFiles 7, IssuesAddLabels 7 [''x'']]) \<and>
   getLabelGlobMapFromObject (Some [(''x'', YArray [YNumber 5])]) = Inr [(''x'', [YNumber 5])] \<and>
   globLabels glob_match [''README.md''] [(''x'', [YNumber 5])] [] =
     Inl (TypeError ''glob pattern string required'')"
  by (simp add: run_labeler_def try_catch_def getConfigurationContents_def
      fetchContent_def getChangedFiles_def getLabelGlobs_def getLabelGlobMapFromObject_def
      getTeamLabelsToMembers_def new_Map_def labelPullRequest_def new_Minimatch_def
      getTeamLabel_def addLabels_def bind_io_def lift_io_def return_io_def
      request_def Let_def env_mixed_fields ctx_dave_fields)

end
